theory Spec2Isabelle
  imports Complex_Main
begin

section \<open>Python values and exceptions\<close>

text \<open>
  The exceptions raised by the modelled functions. Every \<open>raise\<close> of the source is an
  \<open>Inl\<close> result carrying the static part of the message.
\<close>

datatype py_error = ValueError string | KeyError string | TypeError string

text \<open>
  A number as \<open>solve_knapsack_01\<close> may receive it: a Python \<open>int\<close>, a \<open>float\<close>
  (finite; its value is taken as a real number) or a number of any other type
  (\<open>Fraction\<close>, \<open>Decimal\<close>, a numpy scalar), which is neither \<open>int\<close> nor \<open>float\<close>
  for \<open>isinstance\<close>.
\<close>

datatype pynum = PyInt int | PyFloat real | PyOther real

fun num_val :: "pynum \<Rightarrow> real" where
  "num_val (PyInt k) = of_int k"
| "num_val (PyFloat x) = x"
| "num_val (PyOther x) = x"

definition is_integer :: "real \<Rightarrow> bool" where
  \<comment> \<open>\<open>float.is_integer()\<close>\<close>
  "is_integer x = (of_int \<lfloor>x\<rfloor> = x)"

definition py_get :: "'a list \<Rightarrow> int \<Rightarrow> 'a" where
  \<comment> \<open>\<open>xs[k]\<close>: a negative index counts from the end\<close>
  "py_get xs k = (if 0 \<le> k then xs ! nat k else xs ! nat (int (length xs) + k))"

section \<open>knapsack\_utils.py\<close>

fun capacity_int :: "pynum \<Rightarrow> py_error + nat" where
  "capacity_int (PyInt k) = Inr (nat k)"
| "capacity_int (PyFloat x) =
     (if is_integer x then Inr (nat \<lfloor>x\<rfloor>)
      else Inl (ValueError ''capacity must be an integer.''))"
| "capacity_int (PyOther x) = Inl (ValueError ''capacity must be an integer.'')"

fun weights_int :: "pynum list \<Rightarrow> py_error + nat list" where
  "weights_int [] = Inr []"
| "weights_int (PyFloat x # ws) =
     (if is_integer x
      then (case weights_int ws of Inl e \<Rightarrow> Inl e | Inr r \<Rightarrow> Inr (nat \<lfloor>x\<rfloor> # r))
      else Inl (ValueError ''weights must be integers.''))"
| "weights_int (PyInt k # ws) =
     (case weights_int ws of Inl e \<Rightarrow> Inl e | Inr r \<Rightarrow> Inr (nat k # r))"
| "weights_int (PyOther x # ws) = Inl (ValueError ''weights must be integers.'')"

definition dp_cell :: "real list \<Rightarrow> real \<Rightarrow> nat \<Rightarrow> nat \<Rightarrow> real" where
  \<comment> \<open>the body of the inner loop: the value stored in \<open>dp[i][w]\<close>, from row \<open>dp[i - 1]\<close>\<close>
  "dp_cell prev v_i w_i w =
     (let best = prev ! w
      in if w_i \<le> w
         then (let cand = prev ! (w - w_i) + v_i in if cand > best then cand else best)
         else best)"

definition dp_row :: "real list \<Rightarrow> real \<Rightarrow> nat \<Rightarrow> nat \<Rightarrow> real list \<Rightarrow> real list" where
  \<comment> \<open>\<open>for w in range(0, capacity + 1): dp[i][w] = best\<close>\<close>
  "dp_row prev v_i w_i cap row =
     fold (\<lambda>w r. r[w := dp_cell prev v_i w_i w]) [0..<cap + 1] row"

definition dp_step ::
  "real list \<Rightarrow> nat list \<Rightarrow> nat \<Rightarrow> nat \<Rightarrow> real list list \<Rightarrow> real list list" where
  \<comment> \<open>the body of the outer loop for one \<open>i\<close>: row \<open>dp[i]\<close> is filled from row \<open>dp[i - 1]\<close>\<close>
  "dp_step vals w_ints cap i dp =
     dp[i := dp_row (dp ! (i - 1)) (vals ! (i - 1)) (w_ints ! (i - 1)) cap (dp ! i)]"

definition dp_table :: "real list \<Rightarrow> nat list \<Rightarrow> nat \<Rightarrow> nat \<Rightarrow> real list list" where
  \<comment> \<open>\<open>dp = [[0.0] * (capacity + 1) for _ in range(n + 1)]\<close> after
      \<open>for i in range(1, n + 1)\<close>\<close>
  "dp_table vals w_ints cap n =
     fold (dp_step vals w_ints cap) [1..<n + 1] (replicate (n + 1) (replicate (cap + 1) 0))"

fun reconstruct :: "real list list \<Rightarrow> nat list \<Rightarrow> nat \<Rightarrow> int \<Rightarrow> nat list" where
  \<comment> \<open>\<open>for i in range(n, 0, -1)\<close>: the list \<open>selected\<close> in the order of the appends\<close>
  "reconstruct dp w_ints 0 w = []"
| "reconstruct dp w_ints (Suc k) w =
     (if py_get (dp ! Suc k) w \<noteq> py_get (dp ! k) w
      then k # reconstruct dp w_ints k (w - int (w_ints ! k))
      else reconstruct dp w_ints k w)"

definition solve_knapsack_01 ::
  "real list \<Rightarrow> pynum list \<Rightarrow> pynum \<Rightarrow> py_error + (real \<times> nat list)" where
  "solve_knapsack_01 vals weights capacity =
     (if length vals \<noteq> length weights
      then Inl (ValueError ''values and weights must have the same length.'')
      else if num_val capacity < 0 then Inl (ValueError ''capacity must be >= 0.'')
      else let n = length vals in
        if n = 0 \<or> num_val capacity = 0 then Inr (0, [])
        else if list_ex (\<lambda>w. num_val w < 0) weights
        then Inl (ValueError ''weights must be non-negative.'')
        else (case capacity_int capacity of
                Inl e \<Rightarrow> Inl e
              | Inr cap \<Rightarrow>
                 (case weights_int weights of
                    Inl e \<Rightarrow> Inl e
                  | Inr w_ints \<Rightarrow>
                      let dp = dp_table vals w_ints cap n;
                          best_value = dp ! n ! cap;
                          selected = reconstruct dp w_ints n (int cap)
                      in Inr (best_value, rev selected))))"

subsection \<open>Specification-level notions for the knapsack solver\<close>

text \<open>
  \<open>knap_row i\<close> is row \<open>i\<close> of the table written as a recursion on \<open>i\<close>; it is used
  to reason about the table that the loops build.
\<close>

fun knap_row :: "real list \<Rightarrow> nat list \<Rightarrow> nat \<Rightarrow> nat \<Rightarrow> real list" where
  "knap_row vals w_ints cap 0 = replicate (cap + 1) 0"
| "knap_row vals w_ints cap (Suc i) =
     map (dp_cell (knap_row vals w_ints cap i) (vals ! i) (w_ints ! i)) [0..<cap + 1]"

text \<open>
  A valid instance: as many weights as values, every weight and the capacity a
  non-negative integer (an \<open>int\<close>, or a \<open>float\<close> with an integral value).
\<close>

fun nonneg_integer :: "pynum \<Rightarrow> bool" where
  "nonneg_integer (PyInt k) = (0 \<le> k)"
| "nonneg_integer (PyFloat x) = (0 \<le> x \<and> is_integer x)"
| "nonneg_integer (PyOther x) = False"

definition valid_knapsack :: "real list \<Rightarrow> pynum list \<Rightarrow> pynum \<Rightarrow> bool" where
  "valid_knapsack vals weights capacity =
     (length vals = length weights \<and> list_all nonneg_integer weights \<and> nonneg_integer capacity)"


text \<open>
  The brute-force reference: the best total value over all subsets of the items whose
  total weight is at most the capacity.
\<close>

definition feasible :: "pynum list \<Rightarrow> pynum \<Rightarrow> nat set set" where
  "feasible weights capacity =
     {S \<in> Pow {..<length weights}. (\<Sum>i\<in>S. num_val (weights ! i)) \<le> num_val capacity}"

definition brute_force :: "real list \<Rightarrow> pynum list \<Rightarrow> pynum \<Rightarrow> real" where
  "brute_force vals weights capacity = Max ((\<lambda>S. \<Sum>i\<in>S. vals ! i) ` feasible weights capacity)"

text \<open>
  The same optimum over the first \<open>i\<close> items and a capacity \<open>w\<close>, on the validated
  integer weights: what cell \<open>(i, w)\<close> of the table is meant to hold.
\<close>

definition fits :: "nat list \<Rightarrow> nat \<Rightarrow> nat \<Rightarrow> nat set set" where
  "fits w_ints i w = {S. S \<subseteq> {..<i} \<and> (\<Sum>j\<in>S. w_ints ! j) \<le> w}"

definition opt_val :: "real list \<Rightarrow> nat list \<Rightarrow> nat \<Rightarrow> nat \<Rightarrow> real" where
  "opt_val vals w_ints i w = Max ((\<lambda>S. \<Sum>j\<in>S. vals ! j) ` fits w_ints i w)"


section \<open>milp\_utils.py\<close>

subsection \<open>The raw problem mapping\<close>

text \<open>
  An entry of the raw problem dictionary: the key is missing, or its value is \<open>None\<close>,
  or it holds a value. \<open>py_get_key\<close> is \<open>problem.get(key)\<close>.
\<close>

datatype 'a entry = Absent | PyNone | Val 'a

fun py_get_key :: "'a entry \<Rightarrow> 'a option" where
  "py_get_key Absent = None"
| "py_get_key PyNone = None"
| "py_get_key (Val v) = Some v"

record raw_problem =
  raw_sense :: "string entry"
  raw_c :: "real list entry"
  raw_integrality :: "string option list entry"
  raw_bounds :: "(real option \<times> real option) list entry"
  raw_var_names :: "string list entry"
  raw_A_eq :: "real list list entry"
  raw_b_eq :: "real list entry"
  raw_A_ub :: "real list list entry"
  raw_b_ub :: "real list entry"
  raw_obj_offset :: "real entry"

text \<open>The dictionary that \<open>_normalize\<close> returns.\<close>

record norm_problem =
  P_sense :: string
  P_c :: "real list"
  P_n :: nat
  P_integrality :: "string option list"
  P_bounds :: "(real option \<times> real option) list"
  P_var_names :: "string list"
  P_A_eq :: "real list list option"
  P_b_eq :: "real list option"
  P_A_ub :: "real list list option"
  P_b_ub :: "real list option"
  P_obj_offset :: real

subsection \<open>Strings\<close>

definition lower_char :: "char \<Rightarrow> char" where
  "lower_char ch =
     (let k = (of_char ch :: nat) in if 65 \<le> k \<and> k \<le> 90 then char_of (k + 32) else ch)"

definition lower :: "string \<Rightarrow> string" where
  \<comment> \<open>\<open>str.lower()\<close> on ASCII text\<close>
  "lower s = map lower_char s"

fun str_of_nat :: "nat \<Rightarrow> string" where
  \<comment> \<open>the decimal numeral that an f-string prints for a non-negative \<open>int\<close>\<close>
  "str_of_nat k =
     (if k < 10 then [char_of (48 + k)]
      else str_of_nat (k div 10) @ [char_of (48 + k mod 10)])"

declare str_of_nat.simps [simp del]

definition default_names :: "nat \<Rightarrow> string list" where
  \<comment> \<open>\<open>[f"x{i}" for i in range(n)]\<close>\<close>
  "default_names n = map (\<lambda>i. ''x'' @ str_of_nat i) [0..<n]"

subsection \<open>Normalization\<close>

fun sequence :: "('e + 'a) list \<Rightarrow> 'e + 'a list" where
  \<comment> \<open>the results of a loop whose body may raise: the first exception ends it\<close>
  "sequence [] = Inr []"
| "sequence (Inl e # rs) = Inl e"
| "sequence (Inr a # rs) = (case sequence rs of Inl e \<Rightarrow> Inl e | Inr as \<Rightarrow> Inr (a # as))"

definition integrality_token :: "string option \<Rightarrow> py_error + string option" where
  "integrality_token t =
     (if t = Some ''B'' \<or> t = Some ''I'' \<or> t = None then Inr t
      else if t = Some ''C'' then Inr None
      else Inl (ValueError ''Unknown integrality token''))"

definition bind_err :: "'e + 'a \<Rightarrow> ('a \<Rightarrow> 'e + 'b) \<Rightarrow> 'e + 'b" where
  \<comment> \<open>sequencing of steps that may raise: an exception skips what follows\<close>
  "bind_err m f = (case m of Inl e \<Rightarrow> Inl e | Inr x \<Rightarrow> f x)"

definition norm_sense :: "raw_problem \<Rightarrow> py_error + string" where
  \<comment> \<open>\<open>(problem.get("sense", "min") or "min").lower()\<close> and its check\<close>
  "norm_sense problem =
     (let sense = lower (case py_get_key (raw_sense problem) of
                           None \<Rightarrow> ''min''
                         | Some s \<Rightarrow> if s = [] then ''min'' else s)
      in if sense \<noteq> ''min'' \<and> sense \<noteq> ''max''
         then Inl (ValueError ''problem[sense] must be min or max.'')
         else Inr sense)"

definition norm_c :: "raw_problem \<Rightarrow> py_error + real list" where
  \<comment> \<open>\<open>list(problem["c"])\<close>\<close>
  "norm_c problem =
     (case raw_c problem of
        Absent \<Rightarrow> Inl (KeyError ''c'')
      | PyNone \<Rightarrow> Inl (TypeError ''NoneType object is not iterable'')
      | Val c \<Rightarrow> Inr c)"

definition norm_integrality :: "raw_problem \<Rightarrow> nat \<Rightarrow> py_error + string option list" where
  "norm_integrality problem n =
     bind_err (case raw_integrality problem of
                 Absent \<Rightarrow> Inr (replicate n None)
               | PyNone \<Rightarrow> Inl (TypeError ''object of type NoneType has no len()'')
               | Val ts \<Rightarrow> Inr ts)
       (\<lambda>integ_in.
          if length integ_in \<noteq> n
          then Inl (ValueError ''len(integrality) must match len(c).'')
          else sequence (map integrality_token integ_in))"

definition norm_bounds ::
  "raw_problem \<Rightarrow> nat \<Rightarrow> py_error + (real option \<times> real option) list" where
  "norm_bounds problem n =
     (case py_get_key (raw_bounds problem) of
        None \<Rightarrow> Inr (replicate n (Some 0, None))
      | Some bounds_in \<Rightarrow>
          if length bounds_in \<noteq> n
          then Inl (ValueError ''len(bounds) must match len(c).'')
          else Inr bounds_in)"

definition norm_names :: "raw_problem \<Rightarrow> nat \<Rightarrow> py_error + string list" where
  \<comment> \<open>\<open>problem.get("var_names") or [...]\<close>: an empty list counts as not given\<close>
  "norm_names problem n =
     (let names = (case py_get_key (raw_var_names problem) of
                     None \<Rightarrow> default_names n
                   | Some ns \<Rightarrow> if ns = [] then default_names n else ns)
      in if length names \<noteq> n
         then Inl (ValueError ''len(var_names) must match len(c).'')
         else Inr names)"

definition check_pair :: "string \<Rightarrow> 'a option \<Rightarrow> 'b option \<Rightarrow> py_error + unit" where
  \<comment> \<open>\<open>if (A is None) ^ (b is None): raise\<close>\<close>
  "check_pair msg A b = (if (A = None) \<noteq> (b = None) then Inl (ValueError msg) else Inr ())"

definition norm_obj_offset :: "raw_problem \<Rightarrow> py_error + real" where
  \<comment> \<open>\<open>float(problem.get("obj_offset", 0.0))\<close>\<close>
  "norm_obj_offset problem =
     (case raw_obj_offset problem of
        Absent \<Rightarrow> Inr 0
      | PyNone \<Rightarrow> Inl (TypeError ''float() argument must be a string or a real number'')
      | Val off \<Rightarrow> Inr off)"

definition normalize_problem :: "raw_problem \<Rightarrow> py_error + norm_problem" where
  "normalize_problem problem =
     bind_err (norm_sense problem) (\<lambda>sense.
     bind_err (norm_c problem) (\<lambda>c.
     bind_err (norm_integrality problem (length c)) (\<lambda>integrality.
     bind_err (norm_bounds problem (length c)) (\<lambda>bounds.
     bind_err (norm_names problem (length c)) (\<lambda>names.
     bind_err (check_pair ''A_eq and b_eq must be both present or both absent.''
                 (py_get_key (raw_A_eq problem)) (py_get_key (raw_b_eq problem))) (\<lambda>_.
     bind_err (check_pair ''A_ub and b_ub must be both present or both absent.''
                 (py_get_key (raw_A_ub problem)) (py_get_key (raw_b_ub problem))) (\<lambda>_.
     bind_err (norm_obj_offset problem) (\<lambda>off.
       Inr \<lparr>P_sense = sense, P_c = c, P_n = length c,
            P_integrality = integrality, P_bounds = bounds, P_var_names = names,
            P_A_eq = py_get_key (raw_A_eq problem), P_b_eq = py_get_key (raw_b_eq problem),
            P_A_ub = py_get_key (raw_A_ub problem), P_b_ub = py_get_key (raw_b_ub problem),
            P_obj_offset = off\<rparr>))))))))"

subsection \<open>Routing\<close>

definition py_round :: "real \<Rightarrow> int" where
  \<comment> \<open>\<open>round(x)\<close>: to the nearest integer, a tie to the even one\<close>
  "py_round x =
     (let f = \<lfloor>x\<rfloor>; d = x - of_int f
      in if d < 1 / 2 then f else if 1 / 2 < d then f + 1 else if even f then f else f + 1)"

definition is_int_like :: "real \<Rightarrow> bool" where
  \<comment> \<open>with the default \<open>tol = 1e-9\<close>\<close>
  "is_int_like x = (\<bar>x - of_int (py_round x)\<bar> \<le> 1 / 10 ^ 9)"

definition bound_int_like :: "real option \<Rightarrow> bool" where
  \<comment> \<open>\<open>lb is not None and not _is_int_like(lb)\<close> does not hold\<close>
  "bound_int_like b = (case b of None \<Rightarrow> True | Some x \<Rightarrow> is_int_like x)"

definition pair_int_like :: "real list list option \<Rightarrow> real list option \<Rightarrow> py_error + bool" where
  \<comment> \<open>the check of one (matrix, rhs) pair; iterating over a rhs that is \<open>None\<close> raises\<close>
  "pair_int_like A b =
     (case A of
        None \<Rightarrow> Inr True
      | Some rows \<Rightarrow>
          if \<not> list_all (list_all is_int_like) rows then Inr False
          else (case b of
                  None \<Rightarrow> Inl (TypeError ''NoneType object is not iterable'')
                | Some rhs \<Rightarrow> Inr (list_all is_int_like rhs)))"

definition all_data_integer :: "norm_problem \<Rightarrow> py_error + bool" where
  "all_data_integer P =
     (if \<not> list_all is_int_like (P_c P) then Inr False
      else if \<not> list_all (\<lambda>(lb, ub). bound_int_like lb \<and> bound_int_like ub) (P_bounds P)
      then Inr False
      else (case pair_int_like (P_A_eq P) (P_b_eq P) of
              Inl e \<Rightarrow> Inl e
            | Inr False \<Rightarrow> Inr False
            | Inr True \<Rightarrow>
               (case pair_int_like (P_A_ub P) (P_b_ub P) of
                  Inl e \<Rightarrow> Inl e
                | Inr False \<Rightarrow> Inr False
                | Inr True \<Rightarrow> Inr True)))"

definition needs_cbc :: "norm_problem \<Rightarrow> py_error + bool" where
  "needs_cbc P =
     (let has_continuous = list_ex (\<lambda>t. t \<noteq> Some ''B'' \<and> t \<noteq> Some ''I'') (P_integrality P)
      in if has_continuous then Inr True
         else (case all_data_integer P of
                 Inl e \<Rightarrow> Inl e
               | Inr ok \<Rightarrow> if \<not> ok then Inr True else Inr False))"


subsection \<open>The integer-only backend (CP-SAT)\<close>

text \<open>
  What \<open>_build_model\<close> hands to the backend: the variables in order, the linear
  constraints (coefficients in the order of the variables) and the objective.
\<close>

datatype cp_var = NewBoolVar string | NewIntVar int int string

datatype cp_constraint = CpEq "int list" int | CpLe "int list" int

datatype cp_objective = Minimize "int list" | Maximize "int list"

record cp_model =
  cp_vars :: "cp_var list"
  cp_constraints :: "cp_constraint list"
  cp_objective :: cp_objective

record cp_parameters =
  max_time_in_seconds :: "real option"
  num_search_workers :: nat

text \<open>
  The solver after \<open>Solve\<close>, as far as \<open>_pack_result\<close> reads it. The backend itself is
  a parameter \<open>cpsat\<close> of the solving functions: any function from a model and the
  parameters to such a response.
\<close>

record cp_response =
  cp_status_code :: int
  cp_value :: "int list"
  cp_objective_value :: real
  cp_best_objective_bound :: "real option"
  cp_status_name :: string
  cp_wall_time :: real
  cp_num_conflicts :: int
  cp_num_branches :: int

definition CP_OPTIMAL :: int where
  \<comment> \<open>\<open>cp_model.OPTIMAL\<close> of OR-Tools\<close>
  "CP_OPTIMAL = 4"

definition CP_INFEASIBLE :: int where
  \<comment> \<open>\<open>cp_model.INFEASIBLE\<close> of OR-Tools\<close>
  "CP_INFEASIBLE = 3"

definition as_int :: "real \<Rightarrow> py_error + int" where
  "as_int x =
     (let r = py_round x
      in if \<bar>x - of_int r\<bar> > 1 / 10 ^ 9
         then Inl (ValueError ''must be integer-like for CP-SAT'')
         else Inr r)"

definition build_var :: "norm_problem \<Rightarrow> nat \<Rightarrow> py_error + cp_var" where
  \<comment> \<open>the body of the loop over the variables\<close>
  "build_var P i =
     (let kind = P_integrality P ! i; name = P_var_names P ! i; (lb, ub) = P_bounds P ! i
      in if kind = Some ''B'' then Inr (NewBoolVar name)
         else (case as_int (case lb of None \<Rightarrow> 0 | Some l \<Rightarrow> l) of
                 Inl e \<Rightarrow> Inl e
               | Inr lo \<Rightarrow>
                  (case (case ub of None \<Rightarrow> Inr (10 ^ 9) | Some u \<Rightarrow> as_int u) of
                     Inl e \<Rightarrow> Inl e
                   | Inr hi \<Rightarrow>
                       if lo > hi then Inl (ValueError ''Invalid bounds'')
                       else Inr (NewIntVar lo hi name))))"

definition build_row ::
  "(int list \<Rightarrow> int \<Rightarrow> cp_constraint) \<Rightarrow> string \<Rightarrow> nat \<Rightarrow> real list \<times> real \<Rightarrow>
   py_error + cp_constraint" where
  \<comment> \<open>the body of the loop over the rows of one system\<close>
  "build_row rel msg n = (\<lambda>(row, rhs).
     if length row \<noteq> n then Inl (ValueError msg)
     else (case sequence (map as_int row) of
             Inl e \<Rightarrow> Inl e
           | Inr coeffs \<Rightarrow>
              (case as_int rhs of Inl e \<Rightarrow> Inl e | Inr b \<Rightarrow> Inr (rel coeffs b))))"

definition build_rows ::
  "(int list \<Rightarrow> int \<Rightarrow> cp_constraint) \<Rightarrow> string \<Rightarrow> string \<Rightarrow> nat \<Rightarrow>
   real list list option \<Rightarrow> real list option \<Rightarrow> py_error + cp_constraint list" where
  "build_rows rel len_msg row_msg n A b =
     (case A of
        None \<Rightarrow> Inr []
      | Some rows \<Rightarrow>
         (case b of
            None \<Rightarrow> Inl (TypeError ''object of type NoneType has no len()'')
          | Some rhs \<Rightarrow>
              if length rows \<noteq> length rhs then Inl (ValueError len_msg)
              else sequence (map (build_row rel row_msg n) (zip rows rhs))))"

definition build_model :: "norm_problem \<Rightarrow> py_error + cp_model" where
  "build_model P =
     (case sequence (map (build_var P) [0..<P_n P]) of
        Inl e \<Rightarrow> Inl e
      | Inr xs \<Rightarrow>
         (case build_rows CpEq ''len(A_eq) must match len(b_eq).''
                 ''A_eq row length must match n.'' (P_n P) (P_A_eq P) (P_b_eq P) of
            Inl e \<Rightarrow> Inl e
          | Inr eqs \<Rightarrow>
             (case build_rows CpLe ''len(A_ub) must match len(b_ub).''
                     ''A_ub row length must match n.'' (P_n P) (P_A_ub P) (P_b_ub P) of
                Inl e \<Rightarrow> Inl e
              | Inr ubs \<Rightarrow>
                 (case sequence (map as_int (P_c P)) of
                    Inl e \<Rightarrow> Inl e
                  | Inr coefs \<Rightarrow>
                      Inr \<lparr>cp_vars = xs, cp_constraints = eqs @ ubs,
                           cp_objective = (if P_sense P = ''min'' then Minimize coefs
                                           else Maximize coefs)\<rparr>))))"

definition solve_model ::
  "(cp_model \<Rightarrow> cp_parameters \<Rightarrow> cp_response) \<Rightarrow> cp_model \<Rightarrow> real option \<Rightarrow> cp_response" where
  "solve_model cpsat model time_limit =
     cpsat model
       \<lparr>max_time_in_seconds =
          (case time_limit of
             None \<Rightarrow> None
           | Some t \<Rightarrow> if t \<noteq> 0 \<and> t > 0 then Some t else None),
        num_search_workers = 8\<rparr>"

text \<open>The fourth component of a result: the diagnostics of the backend that ran.\<close>

record cp_extras =
  status_code :: int
  status_str :: string
  best_bound :: "real option"
  wall_time :: real
  conflicts :: int
  branches :: int

datatype extras = CpExtras cp_extras | CbcExtras int int | ErrorExtras string

type_synonym milp_result = "string \<times> real option \<times> (string \<rightharpoonup> real) \<times> extras"

definition fill_dict :: "string list \<Rightarrow> real list \<Rightarrow> (string \<rightharpoonup> real)" where
  \<comment> \<open>a dictionary filled key by key in the order of the list: a later value replaces
      an earlier one of the same name\<close>
  "fill_dict names vs = fold (\<lambda>(k, v) m. m(k \<mapsto> v)) (zip names vs) Map.empty"

definition pack_result ::
  "cp_response \<Rightarrow> int \<Rightarrow> cp_var list \<Rightarrow> norm_problem \<Rightarrow> milp_result" where
  "pack_result solver code xs P =
     (let status = (if code = CP_OPTIMAL then ''Optimal''
                    else if code = CP_INFEASIBLE then ''Infeasible''
                    else ''NotSolved'');
          x_dict = (if status = ''Optimal''
                    then fill_dict (take (length xs) (P_var_names P))
                           (map of_int (take (length xs) (cp_value solver)))
                    else Map.empty);
          obj = (if status = ''Optimal''
                 then Some (cp_objective_value solver + P_obj_offset P) else None);
          ex = \<lparr>status_code = code, status_str = cp_status_name solver,
                best_bound = cp_best_objective_bound solver,
                wall_time = cp_wall_time solver,
                conflicts = cp_num_conflicts solver,
                branches = cp_num_branches solver\<rparr>
      in (status, obj, x_dict, CpExtras ex))"

definition cp_sat_route ::
  "(cp_model \<Rightarrow> cp_parameters \<Rightarrow> cp_response) \<Rightarrow> norm_problem \<Rightarrow> real option \<Rightarrow>
   py_error + milp_result" where
  \<comment> \<open>the last three lines of \<open>solve_milp\<close>\<close>
  "cp_sat_route cpsat P time_limit =
     (case build_model P of
        Inl e \<Rightarrow> Inl e
      | Inr model \<Rightarrow>
          let solver = solve_model cpsat model time_limit
          in Inr (pack_result solver (cp_status_code solver) (cp_vars model) P))"

subsection \<open>The continuous-capable backend (CBC)\<close>

text \<open>An upper bound \<open>None\<close> stands for \<open>solver.infinity()\<close>.\<close>

datatype mip_var = IntVar real "real option" string | NumVar real "real option" string

datatype mip_constraint = MipEq "real list" real | MipLe "real list" real

datatype mip_objective = MipMinimize "real list" | MipMaximize "real list"

record mip_model =
  mip_time_limit :: "int option"
  mip_vars :: "mip_var list"
  mip_constraints :: "mip_constraint list"
  mip_objective :: mip_objective

record mip_response =
  mip_result_status :: int
  mip_objective_value :: real
  mip_solution_value :: "real list"
  mip_wall_time :: int

definition CBC_OPTIMAL :: int where
  \<comment> \<open>\<open>pywraplp.Solver.OPTIMAL\<close> of OR-Tools\<close>
  "CBC_OPTIMAL = 0"

definition CBC_INFEASIBLE :: int where
  \<comment> \<open>\<open>pywraplp.Solver.INFEASIBLE\<close> of OR-Tools\<close>
  "CBC_INFEASIBLE = 2"

definition CBC_UNBOUNDED :: int where
  \<comment> \<open>\<open>pywraplp.Solver.UNBOUNDED\<close> of OR-Tools\<close>
  "CBC_UNBOUNDED = 3"

definition py_int :: "real \<Rightarrow> int" where
  \<comment> \<open>\<open>int(x)\<close> of a float: truncation towards zero\<close>
  "py_int x = (if 0 \<le> x then \<lfloor>x\<rfloor> else \<lceil>x\<rceil>)"

definition mip_var_of :: "norm_problem \<Rightarrow> nat \<Rightarrow> real option \<times> real option \<Rightarrow> mip_var" where
  \<comment> \<open>the body of \<open>for i, (lb, ub) in enumerate(bounds)\<close>\<close>
  "mip_var_of P i = (\<lambda>(lb, ub).
     let lb' = (case lb of None \<Rightarrow> 0 | Some l \<Rightarrow> l);
         integ = P_integrality P ! i;
         name = P_var_names P ! i
     in if integ = Some ''B'' \<or> integ = Some ''I''
        then IntVar lb'
               (if integ = Some ''B''
                then (case ub of None \<Rightarrow> Some 1 | Some u \<Rightarrow> Some (min u 1))
                else ub) name
        else NumVar lb' ub name)"

definition mip_rows ::
  "(real list \<Rightarrow> real \<Rightarrow> mip_constraint) \<Rightarrow> nat \<Rightarrow> real list list option \<Rightarrow>
   real list option \<Rightarrow> mip_constraint list" where
  \<comment> \<open>\<open>zip\<close> stops at the shorter sequence\<close>
  "mip_rows rel k A b =
     (case A of
        None \<Rightarrow> []
      | Some rows \<Rightarrow>
         (case b of
            None \<Rightarrow> []
          | Some rhs \<Rightarrow> map (\<lambda>(row, r). rel (take k row) r) (zip rows rhs)))"

definition cbc_model :: "norm_problem \<Rightarrow> real option \<Rightarrow> mip_model" where
  \<comment> \<open>the time limit, variables, constraints and objective that
      \<open>_solve_mip_cbc_mixed\<close> sets up before \<open>solver.Solve()\<close>\<close>
  "cbc_model P time_limit =
     (let tl = (case time_limit of
                  None \<Rightarrow> None
                | Some t \<Rightarrow> if t \<noteq> 0 then Some (py_int (t * 1000)) else None);
          sense = lower (P_sense P);
          c = P_c P;
          xs = map (\<lambda>(i, b). mip_var_of P i b) (zip [0..<length (P_bounds P)] (P_bounds P));
          cts = mip_rows MipEq (length xs) (P_A_eq P) (P_b_eq P) @
                mip_rows MipLe (length xs) (P_A_ub P) (P_b_ub P);
          expr = take (length xs) c
      in \<lparr>mip_time_limit = tl, mip_vars = xs, mip_constraints = cts,
          mip_objective = (if sense = ''min'' then MipMinimize expr else MipMaximize expr)\<rparr>)"

definition solve_mip_cbc_mixed ::
  "(mip_model \<Rightarrow> mip_response) option \<Rightarrow> norm_problem \<Rightarrow> real option \<Rightarrow> milp_result" where
  "solve_mip_cbc_mixed cbc P time_limit =
     (case cbc of
        None \<Rightarrow> (''NotSolved'', None, Map.empty, ErrorExtras ''CBC solver not available'')
      | Some solve \<Rightarrow>
         let names = P_var_names P;
             solver = solve (cbc_model P time_limit);
             res = mip_result_status solver;
             status = (if res = CBC_OPTIMAL then ''Optimal''
                       else if res = CBC_INFEASIBLE then ''Infeasible''
                       else if res = CBC_UNBOUNDED then ''Unbounded''
                       else ''NotSolved'');
             obj = (if status = ''Optimal'' then Some (mip_objective_value solver) else None);
             xdict = (if status = ''Optimal''
                      then fill_dict names (mip_solution_value solver)
                      else Map.empty)
         in (status, obj, xdict, CbcExtras res (mip_wall_time solver)))"

subsection \<open>The entry point\<close>

definition solve_milp ::
  "(cp_model \<Rightarrow> cp_parameters \<Rightarrow> cp_response) \<Rightarrow> (mip_model \<Rightarrow> mip_response) option \<Rightarrow>
   raw_problem \<Rightarrow> real option \<Rightarrow> py_error + milp_result" where
  "solve_milp cpsat cbc problem time_limit =
     (case normalize_problem problem of
        Inl e \<Rightarrow> Inl e
      | Inr P \<Rightarrow>
         (case needs_cbc P of
            Inl e \<Rightarrow> Inl e
          | Inr True \<Rightarrow> Inr (solve_mip_cbc_mixed cbc P time_limit)
          | Inr False \<Rightarrow> cp_sat_route cpsat P time_limit))"


subsection \<open>Specification-level notions for the router\<close>

text \<open>
  The routing rule in the words of the specification: the data of a problem that must
  be integer-valued, and the condition under which the problem goes to the
  continuous-capable backend.
\<close>

definition finite_bounds :: "(real option \<times> real option) list \<Rightarrow> real list" where
  "finite_bounds bs =
     concat (map (\<lambda>(lb, ub). (case lb of None \<Rightarrow> [] | Some l \<Rightarrow> [l]) @
                              (case ub of None \<Rightarrow> [] | Some u \<Rightarrow> [u])) bs)"

definition matrix_coefficients :: "norm_problem \<Rightarrow> real list" where
  "matrix_coefficients P =
     concat (case P_A_eq P of None \<Rightarrow> [] | Some A \<Rightarrow> A) @
     concat (case P_A_ub P of None \<Rightarrow> [] | Some A \<Rightarrow> A)"

definition rhs_entries :: "norm_problem \<Rightarrow> real list" where
  "rhs_entries P =
     (case P_b_eq P of None \<Rightarrow> [] | Some b \<Rightarrow> b) @ (case P_b_ub P of None \<Rightarrow> [] | Some b \<Rightarrow> b)"

definition not_integer_valued :: "real list \<Rightarrow> bool" where
  \<comment> \<open>some entry fails the integer-valued check within tolerance \<open>1e-9\<close>\<close>
  "not_integer_valued xs = list_ex (\<lambda>x. \<not> is_int_like x) xs"

definition continuous_route :: "norm_problem \<Rightarrow> bool" where
  "continuous_route P =
     (list_ex (\<lambda>t. t \<noteq> Some ''B'' \<and> t \<noteq> Some ''I'') (P_integrality P) \<or>
      not_integer_valued (P_c P) \<or>
      not_integer_valued (finite_bounds (P_bounds P)) \<or>
      not_integer_valued (matrix_coefficients P) \<or>
      not_integer_valued (rhs_entries P))"

text \<open>
  The malformations of a raw problem that normalization is to reject. A sequence
  entry differs in length when it is given and its length is not that of \<open>c\<close>; a
  (matrix, rhs) pair is half present when exactly one member is given (not \<open>None\<close>).
\<close>

definition length_differs :: "'a list entry \<Rightarrow> nat \<Rightarrow> bool" where
  "length_differs e n = (case e of Val xs \<Rightarrow> length xs \<noteq> n | _ \<Rightarrow> False)"

definition nonempty_length_differs :: "'a list entry \<Rightarrow> nat \<Rightarrow> bool" where
  "nonempty_length_differs e n = (case e of Val xs \<Rightarrow> xs \<noteq> [] \<and> length xs \<noteq> n | _ \<Rightarrow> False)"

definition half_present :: "'a entry \<Rightarrow> 'b entry \<Rightarrow> bool" where
  "half_present A b = ((py_get_key A = None) \<noteq> (py_get_key b = None))"

definition bad_sense :: "string entry \<Rightarrow> bool" where
  \<comment> \<open>a non-empty sense that is, in lower case, neither min nor max\<close>
  "bad_sense e =
     (case e of Val s \<Rightarrow> s \<noteq> [] \<and> lower s \<noteq> ''min'' \<and> lower s \<noteq> ''max'' | _ \<Rightarrow> False)"

definition malformed :: "raw_problem \<Rightarrow> nat \<Rightarrow> bool" where
  "malformed problem n =
     (length_differs (raw_bounds problem) n \<or>
      length_differs (raw_integrality problem) n \<or>
      nonempty_length_differs (raw_var_names problem) n \<or>
      half_present (raw_A_eq problem) (raw_b_eq problem) \<or>
      half_present (raw_A_ub problem) (raw_b_ub problem) \<or>
      bad_sense (raw_sense problem))"

subsection \<open>Example problems\<close>

text \<open>The 2x2 assignment problem of the repository's tests: all binary, integer data.\<close>

definition assignment_problem :: raw_problem where
  "assignment_problem =
     \<lparr>raw_sense = Val ''min'', raw_c = Val [1, 2, 2, 1],
      raw_integrality = Val [Some ''B'', Some ''B'', Some ''B'', Some ''B''],
      raw_bounds = Val [(Some 0, Some 1), (Some 0, Some 1), (Some 0, Some 1), (Some 0, Some 1)],
      raw_var_names = Val [''x11'', ''x12'', ''x21'', ''x22''],
      raw_A_eq = Val [[1, 1, 0, 0], [0, 0, 1, 1], [1, 0, 1, 0], [0, 1, 0, 1]],
      raw_b_eq = Val [1, 1, 1, 1],
      raw_A_ub = Absent, raw_b_ub = Absent, raw_obj_offset = Absent\<rparr>"

definition assignment_normalized :: norm_problem where
  "assignment_normalized =
     \<lparr>P_sense = ''min'', P_c = [1, 2, 2, 1], P_n = 4,
      P_integrality = [Some ''B'', Some ''B'', Some ''B'', Some ''B''],
      P_bounds = [(Some 0, Some 1), (Some 0, Some 1), (Some 0, Some 1), (Some 0, Some 1)],
      P_var_names = [''x11'', ''x12'', ''x21'', ''x22''],
      P_A_eq = Some [[1, 1, 0, 0], [0, 0, 1, 1], [1, 0, 1, 0], [0, 1, 0, 1]],
      P_b_eq = Some [1, 1, 1, 1],
      P_A_ub = None, P_b_ub = None, P_obj_offset = 0\<rparr>"

text \<open>One continuous variable in \<open>[0, 1]\<close>, minimised, with the objective constant 5.\<close>

definition offset_problem :: raw_problem where
  "offset_problem =
     \<lparr>raw_sense = Val ''min'', raw_c = Val [1],
      raw_integrality = Val [Some ''C''],
      raw_bounds = Val [(Some 0, Some 1)],
      raw_var_names = Absent,
      raw_A_eq = Absent, raw_b_eq = Absent,
      raw_A_ub = Absent, raw_b_ub = Absent, raw_obj_offset = Val 5\<rparr>"

text \<open>A CBC backend that reports the optimum 0 at \<open>x0 = 0\<close>, as CBC does on \<open>offset_problem\<close>.\<close>

definition cbc_reports_zero :: "mip_model \<Rightarrow> mip_response" where
  "cbc_reports_zero model =
     \<lparr>mip_result_status = CBC_OPTIMAL, mip_objective_value = 0,
      mip_solution_value = [0], mip_wall_time = 0\<rparr>"

text \<open>A CP-SAT backend that answers every model with the same response.\<close>

definition cpsat_constant :: "cp_response \<Rightarrow> cp_model \<Rightarrow> cp_parameters \<Rightarrow> cp_response" where
  "cpsat_constant r model params = r"

definition assignment_response :: cp_response where
  "assignment_response =
     \<lparr>cp_status_code = CP_OPTIMAL, cp_value = [1, 0, 0, 1], cp_objective_value = 2,
      cp_best_objective_bound = Some 2, cp_status_name = ''OPTIMAL'',
      cp_wall_time = 0, cp_num_conflicts = 0, cp_num_branches = 0\<rparr>"

text \<open>A problem whose \<open>var_names\<close> is the empty list although \<open>c\<close> has one entry.\<close>

definition empty_names_problem :: raw_problem where
  "empty_names_problem =
     \<lparr>raw_sense = Val [], raw_c = Val [1],
      raw_integrality = Absent, raw_bounds = Absent, raw_var_names = Val [],
      raw_A_eq = Absent, raw_b_eq = Absent,
      raw_A_ub = Absent, raw_b_ub = Absent, raw_obj_offset = Absent\<rparr>"

definition short_bounds_problem :: raw_problem where
  "short_bounds_problem =
     \<lparr>raw_sense = Val ''min'', raw_c = Val [1, 2],
      raw_integrality = Absent, raw_bounds = Val [(Some 0, Some 1)], raw_var_names = Absent,
      raw_A_eq = Absent, raw_b_eq = Absent,
      raw_A_ub = Absent, raw_b_ub = Absent, raw_obj_offset = Absent\<rparr>"


section \<open>data\_adapters/lpnetlib\_adapter.py\<close>

text \<open>
  An entry of a numpy float array: a finite number, an infinity or a NaN. A sparse
  matrix is its column count and its rows; \<open>A.shape\<close> is
  \<open>(length (mat_rows A), mat_cols A)\<close>.
\<close>

datatype npfloat = Fin real | PosInf | NegInf | NaN

record matrix =
  mat_cols :: nat
  mat_rows :: "real list list"

fun isfinite :: "npfloat \<Rightarrow> bool" where
  "isfinite (Fin x) = True"
| "isfinite PosInf = False"
| "isfinite NegInf = False"
| "isfinite NaN = False"

fun np_neg :: "npfloat \<Rightarrow> npfloat" where
  "np_neg (Fin x) = Fin (- x)"
| "np_neg PosInf = NegInf"
| "np_neg NegInf = PosInf"
| "np_neg NaN = NaN"

fun np_close :: "real \<Rightarrow> npfloat \<Rightarrow> npfloat \<Rightarrow> bool" where
  \<comment> \<open>\<open>np.abs(rl - ru) <= eq_tol\<close> on one entry: the difference of two entries that are
      not both finite is an infinity or a NaN, which no tolerance bounds\<close>
  "np_close tol (Fin a) (Fin b) = (\<bar>a - b\<bar> \<le> tol)"
| "np_close tol x y = False"

definition np_where :: "bool list \<Rightarrow> nat list" where
  \<comment> \<open>\<open>np.where(mask)[0]\<close>: the indices at which the mask holds, ascending\<close>
  "np_where flags = filter (\<lambda>i. flags ! i) [0..<length flags]"

definition take_rows :: "matrix \<Rightarrow> nat list \<Rightarrow> matrix" where
  \<comment> \<open>\<open>A[idx, :]\<close>\<close>
  "take_rows A idx = \<lparr>mat_cols = mat_cols A, mat_rows = map (\<lambda>i. mat_rows A ! i) idx\<rparr>"

definition neg_matrix :: "matrix \<Rightarrow> matrix" where
  "neg_matrix A = \<lparr>mat_cols = mat_cols A, mat_rows = map (map uminus) (mat_rows A)\<rparr>"

definition vstack :: "nat \<Rightarrow> matrix list \<Rightarrow> matrix" where
  \<comment> \<open>\<open>sparse.vstack\<close> of blocks with \<open>n\<close> columns each\<close>
  "vstack n blocks = \<lparr>mat_cols = n, mat_rows = concat (map mat_rows blocks)\<rparr>"

definition take_entries :: "npfloat list \<Rightarrow> nat list \<Rightarrow> npfloat list" where
  \<comment> \<open>\<open>v[idx]\<close>\<close>
  "take_entries v idx = map (\<lambda>i. v ! i) idx"

definition is_eq_mask :: "real \<Rightarrow> npfloat list \<Rightarrow> npfloat list \<Rightarrow> bool list" where
  "is_eq_mask eq_tol rl_vec ru_vec =
     map (\<lambda>(l, u). isfinite l \<and> isfinite u \<and> np_close eq_tol l u) (zip rl_vec ru_vec)"

definition eq_idx :: "real \<Rightarrow> npfloat list \<Rightarrow> npfloat list \<Rightarrow> nat list" where
  "eq_idx eq_tol rl_vec ru_vec = np_where (is_eq_mask eq_tol rl_vec ru_vec)"

definition le_idx :: "real \<Rightarrow> npfloat list \<Rightarrow> npfloat list \<Rightarrow> nat list" where
  "le_idx eq_tol rl_vec ru_vec =
     np_where (map (\<lambda>(u, e). isfinite u \<and> \<not> e) (zip ru_vec (is_eq_mask eq_tol rl_vec ru_vec)))"

definition ge_idx :: "real \<Rightarrow> npfloat list \<Rightarrow> npfloat list \<Rightarrow> nat list" where
  "ge_idx eq_tol rl_vec ru_vec =
     np_where (map (\<lambda>(l, e). isfinite l \<and> \<not> e) (zip rl_vec (is_eq_mask eq_tol rl_vec ru_vec)))"

text \<open>
  The row constraints: the equality system, if any, and the blocks of the \<open>\<le>\<close>
  system with their right-hand sides, in the order in which they are appended.
\<close>

record row_constraints =
  rc_A_eq :: "matrix option"
  rc_b_eq :: "npfloat list option"
  rc_A_ub_blocks :: "matrix list"
  rc_b_ub_blocks :: "npfloat list list"

definition partition_rows ::
  "real \<Rightarrow> matrix \<Rightarrow> npfloat list option \<Rightarrow> npfloat list option \<Rightarrow>
   py_error + row_constraints" where
  \<comment> \<open>the branch \<open>if rl is not None or ru is not None\<close>\<close>
  "partition_rows eq_tol A rl ru =
     (let m = length (mat_rows A);
          rl_vec = (case rl of None \<Rightarrow> replicate m NegInf | Some v \<Rightarrow> v);
          ru_vec = (case ru of None \<Rightarrow> replicate m PosInf | Some v \<Rightarrow> v)
      in if length rl_vec \<noteq> m
         then Inl (ValueError ''Inconsistent row bounds: len(rl/ru) != m (rows of A).'')
         else if length ru_vec \<noteq> m
         then Inl (ValueError ''Inconsistent row bounds: len(rl/ru) != m (rows of A).'')
         else
           let eqs = eq_idx eq_tol rl_vec ru_vec;
               les = le_idx eq_tol rl_vec ru_vec;
               ges = ge_idx eq_tol rl_vec ru_vec
           in Inr \<lparr>rc_A_eq = (if eqs \<noteq> [] then Some (take_rows A eqs) else None),
                   rc_b_eq = (if eqs \<noteq> [] then Some (take_entries ru_vec eqs) else None),
                   rc_A_ub_blocks =
                     (if les \<noteq> [] then [take_rows A les] else []) @
                     (if ges \<noteq> [] then [neg_matrix (take_rows A ges)] else []),
                   rc_b_ub_blocks =
                     (if les \<noteq> [] then [take_entries ru_vec les] else []) @
                     (if ges \<noteq> [] then [map np_neg (take_entries rl_vec ges)] else [])\<rparr>)"

definition build_row_constraints ::
  "real \<Rightarrow> matrix \<Rightarrow> npfloat list option \<Rightarrow> npfloat list option \<Rightarrow> npfloat list option \<Rightarrow>
   py_error + row_constraints" where
  "build_row_constraints eq_tol A b rl ru =
     (if rl \<noteq> None then partition_rows eq_tol A rl ru
      else if ru \<noteq> None then partition_rows eq_tol A rl ru
      else (case b of
              Some bv \<Rightarrow>
                if length bv \<noteq> length (mat_rows A)
                then Inl (ValueError ''Inconsistent sizes: len(b) != m (rows of A).'')
                else Inr \<lparr>rc_A_eq = Some A, rc_b_eq = Some bv,
                         rc_A_ub_blocks = [], rc_b_ub_blocks = []\<rparr>
            | None \<Rightarrow>
                Inr \<lparr>rc_A_eq = None, rc_b_eq = None,
                     rc_A_ub_blocks = [], rc_b_ub_blocks = []\<rparr>))"

text \<open>The problem dictionary that the adapter returns; a missing key is \<open>None\<close>.\<close>

record lp_problem =
  lp_sense :: string
  lp_c :: "npfloat list"
  lp_bounds :: "(real option \<times> real option) list"
  lp_var_names :: "string list"
  lp_metadata :: "string \<times> string"
  lp_A_eq :: "matrix option"
  lp_b_eq :: "npfloat list option"
  lp_A_ub :: "matrix option"
  lp_b_ub :: "npfloat list option"
  lp_obj_offset :: "real option"

definition bound_of :: "npfloat \<Rightarrow> real option" where
  \<comment> \<open>\<open>None if not np.isfinite(L) else float(L)\<close>\<close>
  "bound_of x = (case x of Fin r \<Rightarrow> Some r | _ \<Rightarrow> None)"

text \<open>
  \<open>load_lpnetlib_mat\<close> from the point where the fields of the file have been resolved:
  the arguments are the coefficient matrix, the objective vector, the right-hand side,
  the row bounds, the variable bounds and the objective constant, each \<open>None\<close> when no
  alias of it was found. The conversion \<open>float(np.asarray(z0).ravel()[0])\<close> belongs to
  numpy and is the parameter \<open>to_float\<close>; it is \<open>None\<close> where that expression raises.
\<close>

definition load_lpnetlib_mat ::
  "('z \<Rightarrow> real option) \<Rightarrow> string \<Rightarrow> real \<Rightarrow> matrix option \<Rightarrow> npfloat list option \<Rightarrow>
   npfloat list option \<Rightarrow> npfloat list option \<Rightarrow> npfloat list option \<Rightarrow>
   npfloat list option \<Rightarrow> npfloat list option \<Rightarrow> 'z option \<Rightarrow> py_error + lp_problem" where
  "load_lpnetlib_mat to_float path eq_tol A_opt c_opt b rl ru lo_opt hi_opt z0 =
     (case A_opt of
        None \<Rightarrow> Inl (ValueError ''Invalid .mat: missing A or c (unrecognized structure).'')
      | Some A \<Rightarrow>
         (case c_opt of
            None \<Rightarrow> Inl (ValueError ''Invalid .mat: missing A or c (unrecognized structure).'')
          | Some c \<Rightarrow>
             let n = mat_cols A in
             if length c \<noteq> n
             then Inl (ValueError ''Inconsistent sizes: len(c) != n (columns of A).'')
             else
               let lo = (case lo_opt of None \<Rightarrow> replicate n (Fin 0) | Some v \<Rightarrow> v);
                   hi = (case hi_opt of None \<Rightarrow> replicate n PosInf | Some v \<Rightarrow> v)
               in if length lo \<noteq> n
                  then Inl (ValueError ''Inconsistent variable bounds: len(lo/hi) != n.'')
                  else if length hi \<noteq> n
                  then Inl (ValueError ''Inconsistent variable bounds: len(lo/hi) != n.'')
                  else
                    (case build_row_constraints eq_tol A b rl ru of
                       Inl e \<Rightarrow> Inl e
                     | Inr rc \<Rightarrow>
                        Inr \<lparr>lp_sense = ''min'', lp_c = c,
                             lp_bounds = map (\<lambda>(L, U). (bound_of L, bound_of U)) (zip lo hi),
                             lp_var_names = default_names n,
                             lp_metadata = (''LPnetlib'', path),
                             lp_A_eq = rc_A_eq rc, lp_b_eq = rc_b_eq rc,
                             lp_A_ub = (if rc_A_ub_blocks rc \<noteq> []
                                        then Some (vstack n (rc_A_ub_blocks rc)) else None),
                             lp_b_ub = (if rc_A_ub_blocks rc \<noteq> []
                                        then Some (concat (rc_b_ub_blocks rc)) else None),
                             lp_obj_offset = (case z0 of None \<Rightarrow> None | Some z \<Rightarrow> to_float z)\<rparr>)))"

subsection \<open>Specification-level notions for the adapter\<close>

text \<open>
  The kind of a row by its bounds: an equality, a two-sided row that is not an
  equality, a row with only an upper or only a lower finite bound, or a free row.
\<close>

datatype row_kind = Equality | TwoSided | UpperOnly | LowerOnly | Free

definition row_class :: "real \<Rightarrow> npfloat \<Rightarrow> npfloat \<Rightarrow> row_kind" where
  "row_class eq_tol l u =
     (if isfinite l \<and> isfinite u
      then (if np_close eq_tol l u then Equality else TwoSided)
      else if isfinite u then UpperOnly
      else if isfinite l then LowerOnly
      else Free)"

fun times_emitted :: "row_kind \<Rightarrow> nat" where
  "times_emitted Equality = 1"
| "times_emitted TwoSided = 2"
| "times_emitted UpperOnly = 1"
| "times_emitted LowerOnly = 1"
| "times_emitted Free = 0"

definition row_count :: "matrix option \<Rightarrow> nat" where
  "row_count M = (case M of None \<Rightarrow> 0 | Some A \<Rightarrow> length (mat_rows A))"

definition emitted_rows :: "lp_problem \<Rightarrow> nat" where
  \<comment> \<open>the rows of \<open>A_eq\<close> and of \<open>A_ub\<close> together\<close>
  "emitted_rows p = row_count (lp_A_eq p) + row_count (lp_A_ub p)"

definition first_entry :: "real list \<Rightarrow> real option" where
  \<comment> \<open>\<open>to_float\<close> on a flat numeric array: its first entry, none if it is empty\<close>
  "first_entry z = (case z of [] \<Rightarrow> None | x # _ \<Rightarrow> Some x)"

definition one_row :: matrix where
  "one_row = \<lparr>mat_cols = 1, mat_rows = [[1]]\<rparr>"

definition three_rows :: matrix where
  "three_rows = \<lparr>mat_cols = 2, mat_rows = [[1, 0], [0, 1], [1, 1]]\<rparr>"

definition rows_of :: "matrix option \<Rightarrow> real list list" where
  "rows_of M = (case M of None \<Rightarrow> [] | Some A \<Rightarrow> mat_rows A)"

definition row_kinds :: "real \<Rightarrow> npfloat list \<Rightarrow> npfloat list \<Rightarrow> row_kind list" where
  \<comment> \<open>the kind of every row, in order\<close>
  "row_kinds eq_tol rl ru = map (\<lambda>(l, u). row_class eq_tol l u) (zip rl ru)"

definition sizes_ok :: "nat \<Rightarrow> npfloat list option \<Rightarrow> bool" where
  \<comment> \<open>an optional vector has the given length when it is present\<close>
  "sizes_ok n v = (case v of None \<Rightarrow> True | Some xs \<Rightarrow> length xs = n)"


section \<open>data\_adapters/miplib\_solu.py\<close>

subsection \<open>Characters, stripping and splitting\<close>

definition is_space :: "char \<Rightarrow> bool" where
  \<comment> \<open>the ASCII characters that \<open>str.isspace\<close>, \<open>str.split\<close> and the pattern \<open>\s\<close> treat
      as whitespace\<close>
  "is_space ch = (let k = (of_char ch :: nat) in (9 \<le> k \<and> k \<le> 13) \<or> (28 \<le> k \<and> k \<le> 32))"

definition is_alpha :: "char \<Rightarrow> bool" where
  \<comment> \<open>the class \<open>[a-zA-Z]\<close>\<close>
  "is_alpha ch = (let k = (of_char ch :: nat) in (65 \<le> k \<and> k \<le> 90) \<or> (97 \<le> k \<and> k \<le> 122))"

definition is_digit :: "char \<Rightarrow> bool" where
  \<comment> \<open>the class \<open>\d\<close> on ASCII\<close>
  "is_digit ch = (let k = (of_char ch :: nat) in 48 \<le> k \<and> k \<le> 57)"

definition non_space :: "char \<Rightarrow> bool" where
  \<comment> \<open>the class \<open>\S\<close>\<close>
  "non_space ch = (\<not> is_space ch)"

definition strip :: "string \<Rightarrow> string" where
  \<comment> \<open>\<open>str.strip()\<close>\<close>
  "strip s = rev (dropWhile is_space (rev (dropWhile is_space s)))"

fun split_from :: "string \<Rightarrow> string \<Rightarrow> string list" where
  \<comment> \<open>\<open>str.split()\<close> with the characters of the current token, last first\<close>
  "split_from cur [] = (if cur = [] then [] else [rev cur])"
| "split_from cur (ch # rest) =
     (if is_space ch
      then (if cur = [] then split_from [] rest else rev cur # split_from [] rest)
      else split_from (ch # cur) rest)"

definition split :: "string \<Rightarrow> string list" where
  \<comment> \<open>\<open>str.split()\<close>: the maximal runs of characters that are not whitespace\<close>
  "split s = split_from [] s"

subsection \<open>The tagged grammar\<close>

definition opt_sign :: "string \<Rightarrow> string \<times> string" where
  \<comment> \<open>\<open>[+-]?\<close>: the sign matched and the rest\<close>
  "opt_sign s =
     (case s of
        [] \<Rightarrow> ([], s)
      | ch # rest \<Rightarrow> if ch = CHR ''+'' \<or> ch = CHR ''-'' then ([ch], rest) else ([], s))"

definition opt_fraction :: "string \<Rightarrow> string \<times> string" where
  \<comment> \<open>\<open>(?:\.\d+)?\<close>\<close>
  "opt_fraction s =
     (case s of
        [] \<Rightarrow> ([], s)
      | ch # rest \<Rightarrow>
          if ch = CHR ''.''
          then (if takeWhile is_digit rest = [] then ([], s)
                else (ch # takeWhile is_digit rest, dropWhile is_digit rest))
          else ([], s))"

definition opt_exponent :: "string \<Rightarrow> string" where
  \<comment> \<open>\<open>(?:[eE][+-]?\d+)?\<close>\<close>
  "opt_exponent s =
     (case s of
        [] \<Rightarrow> []
      | ch # rest \<Rightarrow>
          if ch = CHR ''e'' \<or> ch = CHR ''E''
          then (let (sg, r) = opt_sign rest
                in if takeWhile is_digit r = [] then [] else ch # sg @ takeWhile is_digit r)
          else [])"

definition match_number :: "string \<Rightarrow> string option" where
  \<comment> \<open>the text that \<open>[+-]?\d+(?:\.\d+)?(?:[eE][+-]?\d+)?\<close> matches at the start of \<open>s\<close>\<close>
  "match_number s =
     (let (sg, r1) = opt_sign s
      in if takeWhile is_digit r1 = [] then None
         else (let (fr, r2) = opt_fraction (dropWhile is_digit r1)
               in Some (sg @ takeWhile is_digit r1 @ fr @ opt_exponent r2)))"

definition match_v31 :: "string \<Rightarrow> (string \<times> string \<times> string option) option" where
  \<comment> \<open>\<open>re.match\<close> of the pattern for tagged lines: the groups \<open>(key, name, obj)\<close>\<close>
  "match_v31 line =
     (case line of
        [] \<Rightarrow> None
      | c0 # r0 \<Rightarrow>
         if c0 \<noteq> CHR ''='' then None
         else if takeWhile is_alpha r0 = [] then None
         else (case dropWhile is_alpha r0 of
                 [] \<Rightarrow> None
               | c1 # r1 \<Rightarrow>
                  if c1 \<noteq> CHR ''='' then None
                  else if takeWhile is_space r1 = [] then None
                  else (let r2 = dropWhile is_space r1;
                            name = takeWhile non_space r2;
                            r3 = dropWhile non_space r2
                        in if name = [] then None
                           else Some (takeWhile is_alpha r0, name,
                                      (if takeWhile is_space r3 = [] then None
                                       else match_number (dropWhile is_space r3))))))"

subsection \<open>The parser\<close>

definition STATUS_KEYS :: "string list" where
  "STATUS_KEYS =
     [''optimal'', ''infeasible'', ''unbounded'', ''best'', ''feasible'', ''limit'', ''unknown'']"

definition V31_MAP :: "(string \<times> string) list" where
  "V31_MAP =
     [(''opt'', ''optimal''), (''best'', ''best''), (''inf'', ''infeasible''),
      (''unbd'', ''unbounded''), (''unkn'', ''unknown'')]"

fun find_status :: "string list \<Rightarrow> nat \<Rightarrow> nat option" where
  \<comment> \<open>\<open>for i, tok in enumerate(parts)\<close> up to its \<open>break\<close>; \<open>i\<close> is the running index\<close>
  "find_status [] i = None"
| "find_status (tok # rest) i =
     (if lower tok \<in> set STATUS_KEYS then Some i else find_status rest (Suc i))"

fun first_float :: "(string \<Rightarrow> 'f option) \<Rightarrow> string list \<Rightarrow> 'f option" where
  \<comment> \<open>the loop over \<open>reversed(parts)\<close>; \<open>py_float\<close> is \<open>None\<close> where \<open>float(tok)\<close> raises
      \<open>ValueError\<close>\<close>
  "first_float py_float [] = None"
| "first_float py_float (tok # rest) =
     (case py_float tok of Some v \<Rightarrow> Some v | None \<Rightarrow> first_float py_float rest)"

type_synonym 'f solu = "string \<rightharpoonup> (string \<times> 'f option)"

definition fallback_line :: "(string \<Rightarrow> 'f option) \<Rightarrow> 'f solu \<Rightarrow> string \<Rightarrow> 'f solu" where
  \<comment> \<open>the permissive fallback on a stripped line\<close>
  "fallback_line py_float out line =
     (let parts = split line
      in case find_status parts 0 of
           None \<Rightarrow> out
         | Some status_idx \<Rightarrow>
            let status = lower (parts ! status_idx);
                name = (if status_idx > 0 then Some (parts ! (status_idx - 1))
                        else if status_idx + 1 < length parts then Some (parts ! (status_idx + 1))
                        else None)
            in (case name of
                  None \<Rightarrow> out
                | Some nm \<Rightarrow>
                    if nm = [] then out
                    else out(nm \<mapsto> (status, first_float py_float (rev parts)))))"

text \<open>
  One line of the file. The builtin \<open>float\<close> is the parameter \<open>py_float\<close>, with any type
  \<open>'f\<close> of floats.
\<close>

definition parse_line :: "(string \<Rightarrow> 'f option) \<Rightarrow> 'f solu \<Rightarrow> string \<Rightarrow> py_error + 'f solu" where
  "parse_line py_float out raw =
     (let line = strip raw
      in case line of
           [] \<Rightarrow> Inr out
         | c0 # _ \<Rightarrow>
            if c0 = CHR ''#'' then Inr out
            else (case match_v31 line of
                    Some (key, name, obj) \<Rightarrow>
                      let status = (case map_of V31_MAP (lower key) of
                                      Some s \<Rightarrow> s
                                    | None \<Rightarrow> lower key)
                      in (case obj of
                            None \<Rightarrow> Inr (out(name \<mapsto> (status, None)))
                          | Some s \<Rightarrow>
                             (case py_float s of
                                None \<Rightarrow> Inl (ValueError ''could not convert string to float'')
                              | Some v \<Rightarrow> Inr (out(name \<mapsto> (status, Some v)))))
                  | None \<Rightarrow> Inr (fallback_line py_float out line)))"

fun parse_lines :: "(string \<Rightarrow> 'f option) \<Rightarrow> 'f solu \<Rightarrow> string list \<Rightarrow> py_error + 'f solu" where
  "parse_lines py_float out [] = Inr out"
| "parse_lines py_float out (raw # rest) =
     (case parse_line py_float out raw of
        Inl e \<Rightarrow> Inl e
      | Inr out' \<Rightarrow> parse_lines py_float out' rest)"

definition parse_miplib_solu :: "(string \<Rightarrow> 'f option) \<Rightarrow> string list \<Rightarrow> py_error + 'f solu" where
  \<comment> \<open>the file is given as its lines\<close>
  "parse_miplib_solu py_float file_lines = parse_lines py_float Map.empty file_lines"

subsection \<open>Specification-level notions for the parser\<close>

definition is_status :: "string \<Rightarrow> bool" where
  \<comment> \<open>the token matches the status vocabulary\<close>
  "is_status tok = (lower tok \<in> set STATUS_KEYS)"

definition first_status_index :: "string list \<Rightarrow> nat" where
  \<comment> \<open>the position of the first status token: the number of tokens before it\<close>
  "first_status_index parts = length (takeWhile (\<lambda>tok. \<not> is_status tok) parts)"

definition last_number :: "(string \<Rightarrow> 'f option) \<Rightarrow> string list \<Rightarrow> 'f option" where
  \<comment> \<open>the value of the last token that parses as a number, if there is one\<close>
  "last_number py_float parts =
     (case filter (\<lambda>tok. py_float tok \<noteq> None) parts of
        [] \<Rightarrow> None
      | tok # toks \<Rightarrow> py_float (last (tok # toks)))"

definition fallback_candidate :: "string \<Rightarrow> bool" where
  \<comment> \<open>a line that is not blank, not a comment and not of the tagged grammar\<close>
  "fallback_candidate raw =
     (case strip raw of
        [] \<Rightarrow> False
      | c0 # _ \<Rightarrow> if c0 = CHR ''#'' then False else match_v31 (strip raw) = None)"

definition digits_value :: "string \<Rightarrow> nat" where
  "digits_value s = fold (\<lambda>ch v. 10 * v + (of_char ch - 48)) s 0"

definition unsigned_float :: "string \<Rightarrow> real option" where
  \<comment> \<open>\<open>float\<close> restricted to unsigned decimal integers: an example for \<open>py_float\<close>\<close>
  "unsigned_float s =
     (if s \<noteq> [] \<and> list_all is_digit s then Some (of_nat (digits_value s)) else None)"


section \<open>Properties of the knapsack solver\<close>

lemma fold_update_prefix:
  "k \<le> length row \<Longrightarrow>
   fold (\<lambda>w r. r[w := f w]) [0..<k] row = map f [0..<k] @ drop k row"
proof (induction k)
  case 0
  then show ?case by simp
next
  case (Suc k)
  then have "k < length row" by simp
  then have "(map f [0..<k] @ drop k row)[k := f k] = map f [0..<k] @ f k # drop (Suc k) row"
    by (simp add: list_update_append upd_conv_take_nth_drop Cons_nth_drop_Suc)
  with Suc show ?case by simp
qed

lemma dp_row_map:
  "length row = cap + 1 \<Longrightarrow> dp_row prev v_i w_i cap row = map (dp_cell prev v_i w_i) [0..<cap + 1]"
  unfolding dp_row_def using fold_update_prefix [of "cap + 1" row "dp_cell prev v_i w_i"] by simp

lemma length_knap_row: "length (knap_row vals w_ints cap i) = cap + 1"
  by (cases i) simp_all

lemma dp_fold_prefix:
  "k \<le> n \<Longrightarrow>
   length (fold (dp_step vals w_ints cap) [1..<k + 1] (replicate (n + 1) (replicate (cap + 1) 0))) = n + 1 \<and>
   (\<forall>i. i \<le> k \<longrightarrow>
      fold (dp_step vals w_ints cap) [1..<k + 1] (replicate (n + 1) (replicate (cap + 1) 0)) ! i =
      knap_row vals w_ints cap i) \<and>
   (\<forall>i. k < i \<and> i \<le> n \<longrightarrow>
      fold (dp_step vals w_ints cap) [1..<k + 1] (replicate (n + 1) (replicate (cap + 1) 0)) ! i =
      replicate (cap + 1) 0)"
proof (induction k)
  case 0
  then show ?case by (auto simp add: nth_Cons')
next
  case (Suc k)
  define T where "T = fold (dp_step vals w_ints cap) [1..<k + 1] (replicate (n + 1) (replicate (cap + 1) 0))"
  from Suc have k: "k < n" by simp
  from Suc.IH k have len: "length T = n + 1"
    and low: "\<And>i. i \<le> k \<Longrightarrow> T ! i = knap_row vals w_ints cap i"
    and high: "\<And>i. k < i \<Longrightarrow> i \<le> n \<Longrightarrow> T ! i = replicate (cap + 1) 0"
    unfolding T_def by simp_all
  have step: "fold (dp_step vals w_ints cap) [1..<Suc k + 1] (replicate (n + 1) (replicate (cap + 1) 0)) =
        dp_step vals w_ints cap (Suc k) T"
    unfolding T_def by simp
  have row: "dp_row (T ! k) (vals ! k) (w_ints ! k) cap (T ! Suc k) = knap_row vals w_ints cap (Suc k)"
    using low [of k] high [of "Suc k"] k by (simp add: dp_row_map)
  have T': "dp_step vals w_ints cap (Suc k) T = T[Suc k := knap_row vals w_ints cap (Suc k)]"
    unfolding dp_step_def using row by simp
  show ?case
    unfolding step T' using len low high k
    by (auto simp add: nth_list_update simp del: knap_row.simps)
qed

lemma dp_table_nth:
  "i \<le> n \<Longrightarrow> dp_table vals w_ints cap n ! i = knap_row vals w_ints cap i"
proof -
  have "dp_table vals w_ints cap n =
        fold (dp_step vals w_ints cap) [1..<n + 1] (replicate (n + 1) (replicate (cap + 1) 0))"
    unfolding dp_table_def ..
  then show "i \<le> n \<Longrightarrow> ?thesis" using dp_fold_prefix [of n n vals w_ints cap] by simp
qed

lemma knap_row_nth:
  "w \<le> cap \<Longrightarrow> knap_row vals w_ints cap (Suc i) ! w =
     dp_cell (knap_row vals w_ints cap i) (vals ! i) (w_ints ! i) w"
  using nth_map_upt [of w "cap + 1" 0] by simp

lemma cell_changed_fits:
  assumes "w \<le> cap"
    and "knap_row vals w_ints cap (Suc i) ! w \<noteq> knap_row vals w_ints cap i ! w"
  shows "w_ints ! i \<le> w"
proof (rule ccontr)
  assume "\<not> w_ints ! i \<le> w"
  then have "dp_cell (knap_row vals w_ints cap i) (vals ! i) (w_ints ! i) w = knap_row vals w_ints cap i ! w"
    by (simp add: dp_cell_def)
  with assms show False by (simp add: knap_row_nth del: knap_row.simps)
qed

lemma reconstruct_bound: "list_all (\<lambda>j. j < k) (reconstruct dp w_ints k w)"
proof (induction k arbitrary: w)
  case 0
  then show ?case by simp
next
  case (Suc k)
  have "list_all (\<lambda>j. j < k) xs \<Longrightarrow> list_all (\<lambda>j. j < Suc k) xs" for xs
    by (induction xs) auto
  with Suc show ?case by simp
qed

lemma reconstruct_desc: "sorted_wrt (>) (reconstruct dp w_ints k w)"
proof (induction k arbitrary: w)
  case 0
  then show ?case by simp
next
  case (Suc k)
  have "\<forall>j\<in>set (reconstruct dp w_ints k w'). j < k" for w'
    using reconstruct_bound [of k dp w_ints w'] by (simp add: list_all_iff)
  with Suc show ?case by auto
qed

lemma reconstruct_weight:
  assumes "k \<le> n" and "0 \<le> w" and "w \<le> int cap"
  shows "int (sum_list (map (\<lambda>j. w_ints ! j) (reconstruct (dp_table vals w_ints cap n) w_ints k w))) \<le> w"
  using assms
proof (induction k arbitrary: w)
  case 0
  then show ?case by simp
next
  case (Suc k)
  let ?dp = "dp_table vals w_ints cap n"
  from Suc.prems have rows: "?dp ! Suc k = knap_row vals w_ints cap (Suc k)"
    "?dp ! k = knap_row vals w_ints cap k"
    by (simp_all add: dp_table_nth del: knap_row.simps)
  from Suc.prems have w: "nat w \<le> cap" by simp
  show ?case
  proof (cases "py_get (?dp ! Suc k) w \<noteq> py_get (?dp ! k) w")
    case True
    with Suc.prems have "knap_row vals w_ints cap (Suc k) ! nat w \<noteq> knap_row vals w_ints cap k ! nat w"
      unfolding rows by (simp add: py_get_def del: knap_row.simps)
    from cell_changed_fits [OF w this] Suc.prems have fits: "int (w_ints ! k) \<le> w" by simp
    then have "int (sum_list (map (\<lambda>j. w_ints ! j) (reconstruct ?dp w_ints k (w - int (w_ints ! k)))))
        \<le> w - int (w_ints ! k)"
      using Suc.IH [of "w - int (w_ints ! k)"] Suc.prems by simp
    with True show ?thesis by simp
  next
    case False
    with Suc.IH [of w] Suc.prems show ?thesis by simp
  qed
qed


lemma nonneg_integer_val: "nonneg_integer x \<Longrightarrow> 0 \<le> num_val x"
  by (cases x) simp_all

lemma capacity_int_valid:
  "nonneg_integer c \<Longrightarrow> \<exists>cap. capacity_int c = Inr cap \<and> num_val c = of_nat cap"
proof (cases c)
  case (PyFloat x)
  assume "nonneg_integer c"
  with PyFloat have x: "0 \<le> x" "of_int \<lfloor>x\<rfloor> = x" by (simp_all add: is_integer_def)
  then have "0 \<le> \<lfloor>x\<rfloor>" by simp
  then have "real (nat \<lfloor>x\<rfloor>) = x" using x(2) by simp
  with PyFloat x show ?thesis by (simp add: is_integer_def)
qed simp_all

lemma weights_int_valid:
  "list_all nonneg_integer ws \<Longrightarrow>
   \<exists>w_ints. weights_int ws = Inr w_ints \<and> map num_val ws = map of_nat w_ints"
proof (induction ws)
  case Nil
  then show ?case by simp
next
  case (Cons w ws)
  then obtain r where r: "weights_int ws = Inr r" "map num_val ws = map of_nat r" by auto
  from Cons.prems have "nonneg_integer w" by simp
  then obtain k where k: "capacity_int w = Inr k" "num_val w = of_nat k"
    using capacity_int_valid by blast
  show ?case
  proof (cases w)
    case (PyInt i)
    with r k show ?thesis by auto
  next
    case (PyFloat x)
    with r k show ?thesis by (auto split: if_splits)
  next
    case (PyOther x)
    with k show ?thesis by simp
  qed
qed

lemma valid_no_negative: "list_all nonneg_integer ws \<Longrightarrow> \<not> list_ex (\<lambda>w. num_val w < 0) ws"
  by (induction ws) (auto dest: nonneg_integer_val)

lemma real_sum_list_nth:
  "sum_list (map (\<lambda>i. real (ws ! i)) xs) = real (sum_list (map (\<lambda>i. ws ! i) xs))"
  by (induction xs) simp_all

text \<open>
  Claim C6. For every valid knapsack instance \<open>solve_knapsack_01\<close> returns, the index
  list it returns is sorted in strictly ascending order (and holds item indices only),
  and the weights of the selected items sum to at most the capacity.
\<close>

theorem selection_sorted_within_capacity:
  assumes "valid_knapsack vals weights capacity"
  shows "\<exists>best sel. solve_knapsack_01 vals weights capacity = Inr (best, sel) \<and>
           sorted_wrt (<) sel \<and> list_all (\<lambda>i. i < length vals) sel \<and>
           sum_list (map (\<lambda>i. num_val (weights ! i)) sel) \<le> num_val capacity"
proof -
  from assms have len: "length vals = length weights"
    and ws: "list_all nonneg_integer weights" and c: "nonneg_integer capacity"
    by (simp_all add: valid_knapsack_def)
  from c have c0: "0 \<le> num_val capacity" by (rule nonneg_integer_val)
  show ?thesis
  proof (cases "length vals = 0 \<or> num_val capacity = 0")
    case True
    with len c0 have "solve_knapsack_01 vals weights capacity = Inr (0, [])"
      by (auto simp add: solve_knapsack_01_def)
    with c0 show ?thesis by simp
  next
    case False
    obtain cap where cap: "capacity_int capacity = Inr cap" "num_val capacity = of_nat cap"
      using capacity_int_valid [OF c] by blast
    obtain w_ints where wi: "weights_int weights = Inr w_ints"
      "map num_val weights = map of_nat w_ints"
      using weights_int_valid [OF ws] by blast
    let ?n = "length vals"
    let ?sel = "reconstruct (dp_table vals w_ints cap ?n) w_ints ?n (int cap)"
    have res: "solve_knapsack_01 vals weights capacity =
               Inr (dp_table vals w_ints cap ?n ! ?n ! cap, rev ?sel)"
      using False len c0 cap(1) wi(1) valid_no_negative [OF ws]
      by (simp add: solve_knapsack_01_def Let_def)
    have bound: "list_all (\<lambda>i. i < ?n) ?sel" by (rule reconstruct_bound)
    have sorted: "sorted_wrt (<) (rev ?sel)"
      using reconstruct_desc [of "dp_table vals w_ints cap ?n" w_ints ?n "int cap"]
      by (simp add: sorted_wrt_rev)
    have nth: "num_val (weights ! i) = real (w_ints ! i)" if "i < ?n" for i
    proof -
      from wi(2) have "length w_ints = length weights" by (metis length_map)
      with that len have "map num_val weights ! i = map real w_ints ! i"
        using wi(2) by simp
      with that len \<open>length w_ints = length weights\<close> show ?thesis by simp
    qed
    have "sum_list (map (\<lambda>i. num_val (weights ! i)) (rev ?sel)) =
          sum_list (map (\<lambda>i. num_val (weights ! i)) ?sel)"
      by (simp add: rev_map [symmetric])
    also have "\<dots> = sum_list (map (\<lambda>i. real (w_ints ! i)) ?sel)"
      using bound nth by (auto simp add: list_all_iff intro!: arg_cong [where f = sum_list])
    also have "\<dots> = real (sum_list (map (\<lambda>i. w_ints ! i) ?sel))"
      by (rule real_sum_list_nth)
    also have "\<dots> \<le> real cap"
      using reconstruct_weight [of ?n ?n "int cap" cap w_ints vals] by simp
    finally have weight: "sum_list (map (\<lambda>i. num_val (weights ! i)) (rev ?sel)) \<le> num_val capacity"
      using cap(2) by simp
    from res sorted bound weight show ?thesis by (simp add: list_all_iff)
  qed
qed

theorem selection_sorted_within_capacity_witness:
  "valid_knapsack [3, 4, 5, 6] [PyInt 2, PyInt 3, PyInt 4, PyInt 5] (PyInt 5) \<and>
   (\<exists>best sel. solve_knapsack_01 [3, 4, 5, 6] [PyInt 2, PyInt 3, PyInt 4, PyInt 5] (PyInt 5) = Inr (best, sel) \<and>
           sorted_wrt (<) sel \<and> list_all (\<lambda>i. i < length [3, 4, 5, 6::real]) sel \<and>
           sum_list (map (\<lambda>i. num_val ([PyInt 2, PyInt 3, PyInt 4, PyInt 5] ! i)) sel) \<le> num_val (PyInt 5))"
proof -
  have v: "valid_knapsack [3, 4, 5, 6] [PyInt 2, PyInt 3, PyInt 4, PyInt 5] (PyInt 5)"
    by (simp add: valid_knapsack_def)
  from selection_sorted_within_capacity [OF v] v show ?thesis by blast
qed

subsection \<open>The table holds the optimum\<close>

lemma fits_finite: "finite (fits w_ints i w)"
proof -
  have "fits w_ints i w \<subseteq> Pow {..<i}" by (auto simp add: fits_def)
  then show ?thesis by (rule finite_subset) simp
qed

lemma fits_empty: "{} \<in> fits w_ints i w"
  by (simp add: fits_def)

lemma fits_member_finite: "S \<in> fits w_ints i w \<Longrightarrow> finite S \<and> i \<notin> S"
  by (auto simp add: fits_def intro: finite_subset [of S "{..<i}"])

lemma fits_Suc:
  "fits w_ints (Suc i) w =
     fits w_ints i w \<union> (if w_ints ! i \<le> w then insert i ` fits w_ints i (w - w_ints ! i) else {})"
proof (intro set_eqI iffI)
  fix S assume S: "S \<in> fits w_ints (Suc i) w"
  then have sub: "S \<subseteq> {..<Suc i}" and le: "(\<Sum>j\<in>S. w_ints ! j) \<le> w"
    by (simp_all add: fits_def)
  from sub have fin: "finite S" by (rule finite_subset) simp
  show "S \<in> fits w_ints i w \<union> (if w_ints ! i \<le> w then insert i ` fits w_ints i (w - w_ints ! i) else {})"
  proof (cases "i \<in> S")
    case False
    with sub have "S \<subseteq> {..<i}" by (auto simp add: less_Suc_eq)
    with le show ?thesis by (simp add: fits_def)
  next
    case True
    let ?R = "S - {i}"
    from True have S_eq: "S = insert i ?R" by auto
    from fin True have sum: "(\<Sum>j\<in>S. w_ints ! j) = w_ints ! i + (\<Sum>j\<in>?R. w_ints ! j)"
      by (simp add: sum.remove)
    from sub have R: "?R \<subseteq> {..<i}" by (auto simp add: less_Suc_eq)
    from sum le have "w_ints ! i \<le> w" "(\<Sum>j\<in>?R. w_ints ! j) \<le> w - w_ints ! i" by simp_all
    with R have fit: "w_ints ! i \<le> w" and mem: "?R \<in> fits w_ints i (w - w_ints ! i)"
      by (simp_all add: fits_def)
    from S_eq mem have "S \<in> insert i ` fits w_ints i (w - w_ints ! i)" by (rule image_eqI)
    with fit show ?thesis by simp
  qed
next
  fix S assume S: "S \<in> fits w_ints i w \<union> (if w_ints ! i \<le> w then insert i ` fits w_ints i (w - w_ints ! i) else {})"
  show "S \<in> fits w_ints (Suc i) w"
  proof (cases "S \<in> fits w_ints i w")
    case True
    then show ?thesis by (auto simp add: fits_def)
  next
    case False
    with S have fit: "w_ints ! i \<le> w" and "S \<in> insert i ` fits w_ints i (w - w_ints ! i)"
      by (auto split: if_splits)
    then obtain R where R: "S = insert i R" "R \<in> fits w_ints i (w - w_ints ! i)" by auto
    from R(2) have "finite R" "i \<notin> R" using fits_member_finite by blast+
    then have "(\<Sum>j\<in>S. w_ints ! j) = w_ints ! i + (\<Sum>j\<in>R. w_ints ! j)"
      unfolding R(1) by simp
    moreover from R(2) have "(\<Sum>j\<in>R. w_ints ! j) \<le> w - w_ints ! i" "R \<subseteq> {..<i}"
      by (simp_all add: fits_def)
    ultimately show ?thesis using fit unfolding R(1) by (auto simp add: fits_def)
  qed
qed

lemma opt_val_0: "opt_val vals w_ints 0 w = 0"
proof -
  have "fits w_ints 0 w = {{}}" by (auto simp add: fits_def)
  then show ?thesis by (simp add: opt_val_def)
qed

lemma Max_image_add:
  fixes A :: "real set"
  assumes "finite A" and "A \<noteq> {}"
  shows "Max ((\<lambda>x. x + v) ` A) = Max A + v"
  using assms by (simp add: mono_Max_commute [symmetric] mono_def)

lemma opt_val_Suc:
  "opt_val vals w_ints (Suc i) w =
     (if w_ints ! i \<le> w
      then max (opt_val vals w_ints i w) (opt_val vals w_ints i (w - w_ints ! i) + vals ! i)
      else opt_val vals w_ints i w)"
proof (cases "w_ints ! i \<le> w")
  case False
  then show ?thesis by (simp add: opt_val_def fits_Suc)
next
  case True
  let ?val = "\<lambda>S. \<Sum>j\<in>S. vals ! j"
  let ?A = "fits w_ints i w" and ?B = "fits w_ints i (w - w_ints ! i)"
  have img: "?val ` insert i ` ?B = (\<lambda>x. x + vals ! i) ` ?val ` ?B"
  proof -
    have "?val (insert i R) = ?val R + vals ! i" if "R \<in> ?B" for R
      using fits_member_finite [OF that] by simp
    then show ?thesis by (auto simp add: image_iff)
  qed
  have neA: "?val ` ?A \<noteq> {}" and neB: "?val ` ?B \<noteq> {}"
    using fits_empty [of w_ints i w] fits_empty [of w_ints i "w - w_ints ! i"] by blast+
  have finA: "finite (?val ` ?A)" and finB: "finite (?val ` ?B)"
    by (simp_all add: fits_finite)
  have "opt_val vals w_ints (Suc i) w = Max (?val ` ?A \<union> (\<lambda>x. x + vals ! i) ` ?val ` ?B)"
    using True by (simp add: opt_val_def fits_Suc image_Un img)
  also have "\<dots> = max (Max (?val ` ?A)) (Max ((\<lambda>x. x + vals ! i) ` ?val ` ?B))"
    using finA finB neA neB by (intro Max_Un) simp_all
  also have "Max ((\<lambda>x. x + vals ! i) ` ?val ` ?B) = Max (?val ` ?B) + vals ! i"
    using finB neB by (rule Max_image_add)
  finally show ?thesis using True by (simp add: opt_val_def)
qed

lemma knap_row_opt:
  "w \<le> cap \<Longrightarrow> knap_row vals w_ints cap i ! w = opt_val vals w_ints i w"
proof (induction i arbitrary: w)
  case 0
  then show ?case by (simp add: opt_val_0 nth_Cons')
next
  case (Suc i)
  have cell: "knap_row vals w_ints cap (Suc i) ! w =
        dp_cell (knap_row vals w_ints cap i) (vals ! i) (w_ints ! i) w"
    using Suc.prems by (rule knap_row_nth)
  show ?case
  proof (cases "w_ints ! i \<le> w")
    case False
    with Suc show ?thesis unfolding cell by (simp add: dp_cell_def opt_val_Suc)
  next
    case True
    with Suc.prems have "w - w_ints ! i \<le> cap" by simp
    with Suc True show ?thesis unfolding cell
      by (simp add: dp_cell_def opt_val_Suc Let_def max_def)
  qed
qed

lemma feasible_fits:
  assumes "map num_val weights = map real w_ints" and "num_val capacity = real cap"
  shows "feasible weights capacity = fits w_ints (length weights) cap"
proof -
  from assms(1) have len: "length w_ints = length weights" by (metis length_map)
  have nth: "num_val (weights ! i) = real (w_ints ! i)" if "i < length weights" for i
  proof -
    from that len have "map num_val weights ! i = map real w_ints ! i" using assms(1) by simp
    with that len show ?thesis by simp
  qed
  have "((\<Sum>i\<in>S. num_val (weights ! i)) \<le> real cap) = ((\<Sum>i\<in>S. w_ints ! i) \<le> cap)"
    if "S \<subseteq> {..<length weights}" for S
  proof -
    have "(\<Sum>i\<in>S. num_val (weights ! i)) = (\<Sum>i\<in>S. real (w_ints ! i))"
      using that nth by (intro sum.cong) auto
    then have "(\<Sum>i\<in>S. num_val (weights ! i)) = real (\<Sum>i\<in>S. w_ints ! i)" by simp
    then show ?thesis by (simp only: of_nat_le_iff)
  qed
  then show ?thesis
    unfolding feasible_def fits_def assms(2) by auto
qed

lemma dp_path_optimal:
  assumes "valid_knapsack vals weights capacity"
    and "0 < length vals" and "0 < num_val capacity"
  shows "\<exists>sel. solve_knapsack_01 vals weights capacity = Inr (brute_force vals weights capacity, sel)"
proof -
  from assms(1) have len: "length vals = length weights"
    and ws: "list_all nonneg_integer weights" and c: "nonneg_integer capacity"
    by (simp_all add: valid_knapsack_def)
  obtain cap where cap: "capacity_int capacity = Inr cap" "num_val capacity = of_nat cap"
    using capacity_int_valid [OF c] by blast
  obtain w_ints where wi: "weights_int weights = Inr w_ints"
    "map num_val weights = map of_nat w_ints"
    using weights_int_valid [OF ws] by blast
  let ?n = "length vals"
  have "solve_knapsack_01 vals weights capacity =
         Inr (dp_table vals w_ints cap ?n ! ?n ! cap,
              rev (reconstruct (dp_table vals w_ints cap ?n) w_ints ?n (int cap)))"
    using assms(2,3) len cap(1) wi(1) valid_no_negative [OF ws]
    by (simp add: solve_knapsack_01_def Let_def)
  moreover have "dp_table vals w_ints cap ?n ! ?n ! cap = opt_val vals w_ints ?n cap"
    by (simp add: dp_table_nth knap_row_opt del: knap_row.simps)
  moreover have "brute_force vals weights capacity = opt_val vals w_ints ?n cap"
    unfolding brute_force_def opt_val_def using feasible_fits [OF wi(2) cap(2)] len by simp
  ultimately show ?thesis by simp
qed

text \<open>
  Claim C1. The first component returned by \<open>solve_knapsack_01\<close> is the brute-force
  optimum. The early return for \<open>capacity == 0\<close> breaks it: the instance with one item
  of value 5 and weight 0 and capacity 0 is valid, its optimum is 5 (the item fits), and
  the function returns 0. On the table path (\<open>dp_path_optimal\<close>) the claim holds.
\<close>

theorem zero_capacity_misses_optimum:
  "valid_knapsack [5] [PyInt 0] (PyInt 0) \<and>
   solve_knapsack_01 [5] [PyInt 0] (PyInt 0) = Inr (0, []) \<and>
   brute_force [5] [PyInt 0] (PyInt 0) = 5"
proof (intro conjI)
  show "valid_knapsack [5] [PyInt 0] (PyInt 0)"
    by (simp add: valid_knapsack_def)
  show "solve_knapsack_01 [5] [PyInt 0] (PyInt 0) = Inr (0, [])"
    by (simp add: solve_knapsack_01_def)
  show "brute_force [5] [PyInt 0] (PyInt 0) = 5"
    by code_simp
qed

subsection \<open>Validation\<close>

lemma length_mismatch_raises:
  "length vals \<noteq> length weights \<Longrightarrow> isl (solve_knapsack_01 vals weights capacity)"
  by (simp add: solve_knapsack_01_def)

lemma negative_weight_raises:
  assumes "0 < length vals" and "num_val capacity \<noteq> 0"
    and "list_ex (\<lambda>w. num_val w < 0) weights"
  shows "isl (solve_knapsack_01 vals weights capacity)"
  using assms by (auto simp add: solve_knapsack_01_def Let_def)

lemma nonintegral_capacity_raises:
  assumes "0 < length vals" and "\<not> is_integer (num_val capacity)"
  shows "isl (solve_knapsack_01 vals weights capacity)"
proof -
  from assms(2) have "num_val capacity \<noteq> 0" by (auto simp add: is_integer_def)
  moreover from assms(2) have "isl (capacity_int capacity)"
    by (cases capacity) (simp_all add: is_integer_def)
  ultimately show ?thesis using assms(1)
    by (auto simp add: solve_knapsack_01_def Let_def split: sum.splits)
qed

lemma integral_float_capacity_accepted:
  "solve_knapsack_01 [5] [PyInt 1] (PyFloat 3.0) = Inr (5, [0])"
  by code_simp

text \<open>
  Claim C4. A negative weight or a capacity that is not integer-valued makes
  \<open>solve_knapsack_01\<close> raise. The early return for \<open>n == 0 or capacity == 0\<close> comes
  before both checks: with capacity 0 a negative weight is returned on, and with no
  items the capacity 3.5 is.
\<close>

theorem validation_skipped_by_early_return:
  "solve_knapsack_01 [5] [PyInt (- 1)] (PyInt 0) = Inr (0, []) \<and>
   solve_knapsack_01 [] [] (PyFloat 3.5) = Inr (0, [])"
  by (simp add: solve_knapsack_01_def)

section \<open>Properties of the MILP router\<close>

subsection \<open>Routing\<close>

lemma bind_err_Inr: "(bind_err m f = Inr y) = (\<exists>x. m = Inr x \<and> f x = Inr y)"
  by (cases m) (simp_all add: bind_err_def)

lemma normalize_pairs:
  assumes "normalize_problem problem = Inr P"
  shows "(P_A_eq P = None) = (P_b_eq P = None) \<and> (P_A_ub P = None) = (P_b_ub P = None)"
proof -
  from assms obtain u1 u2 :: unit where
    eq: "check_pair ''A_eq and b_eq must be both present or both absent.''
          (py_get_key (raw_A_eq problem)) (py_get_key (raw_b_eq problem)) = Inr u1"
    and ub: "check_pair ''A_ub and b_ub must be both present or both absent.''
          (py_get_key (raw_A_ub problem)) (py_get_key (raw_b_ub problem)) = Inr u2"
    and P: "P_A_eq P = py_get_key (raw_A_eq problem)" "P_b_eq P = py_get_key (raw_b_eq problem)"
      "P_A_ub P = py_get_key (raw_A_ub problem)" "P_b_ub P = py_get_key (raw_b_ub problem)"
    unfolding normalize_problem_def bind_err_Inr by auto
  from eq ub show ?thesis unfolding P by (simp add: check_pair_def split: if_splits)
qed

lemma not_integer_valued_iff: "not_integer_valued xs = (\<not> list_all is_int_like xs)"
  unfolding not_integer_valued_def by (induction xs) simp_all

lemma all_int_like_concat:
  "list_all is_int_like (concat A) = list_all (list_all is_int_like) A"
  by (induction A) simp_all

lemma all_int_like_bounds:
  "list_all is_int_like (finite_bounds bs) =
     list_all (\<lambda>(lb, ub). bound_int_like lb \<and> bound_int_like ub) bs"
proof (induction bs)
  case Nil
  then show ?case by (simp add: finite_bounds_def)
next
  case (Cons b bs)
  obtain lb ub where b: "b = (lb, ub)" by (cases b)
  have "finite_bounds (b # bs) =
        (case lb of None \<Rightarrow> [] | Some l \<Rightarrow> [l]) @ (case ub of None \<Rightarrow> [] | Some u \<Rightarrow> [u]) @ finite_bounds bs"
    by (simp add: finite_bounds_def b)
  with Cons show ?case
    by (simp add: b bound_int_like_def split: option.splits)
qed

lemma pair_int_like_consistent:
  assumes "(A = None) = (b = None)"
  shows "pair_int_like A b =
     Inr (list_all is_int_like (concat (case A of None \<Rightarrow> [] | Some rows \<Rightarrow> rows)) \<and>
          list_all is_int_like (case b of None \<Rightarrow> [] | Some rhs \<Rightarrow> rhs))"
  using assms by (cases A; cases b) (simp_all add: pair_int_like_def all_int_like_concat)

lemma all_data_integer_consistent:
  assumes "(P_A_eq P = None) = (P_b_eq P = None)" and "(P_A_ub P = None) = (P_b_ub P = None)"
  shows "all_data_integer P =
     Inr (list_all is_int_like (P_c P) \<and> list_all is_int_like (finite_bounds (P_bounds P)) \<and>
          list_all is_int_like (matrix_coefficients P) \<and> list_all is_int_like (rhs_entries P))"
proof -
  let ?eqA = "list_all is_int_like (concat (case P_A_eq P of None \<Rightarrow> [] | Some rows \<Rightarrow> rows))"
  let ?eqb = "list_all is_int_like (case P_b_eq P of None \<Rightarrow> [] | Some rhs \<Rightarrow> rhs)"
  let ?ubA = "list_all is_int_like (concat (case P_A_ub P of None \<Rightarrow> [] | Some rows \<Rightarrow> rows))"
  let ?ubb = "list_all is_int_like (case P_b_ub P of None \<Rightarrow> [] | Some rhs \<Rightarrow> rhs)"
  have eq: "pair_int_like (P_A_eq P) (P_b_eq P) = Inr (?eqA \<and> ?eqb)"
    using assms(1) by (rule pair_int_like_consistent)
  have ub: "pair_int_like (P_A_ub P) (P_b_ub P) = Inr (?ubA \<and> ?ubb)"
    using assms(2) by (rule pair_int_like_consistent)
  have m: "list_all is_int_like (matrix_coefficients P) = (?eqA \<and> ?ubA)"
    by (simp add: matrix_coefficients_def)
  have r: "list_all is_int_like (rhs_entries P) = (?eqb \<and> ?ubb)"
    by (simp add: rhs_entries_def)
  show ?thesis
    unfolding all_data_integer_def eq ub m r all_int_like_bounds
    by (cases "list_all is_int_like (P_c P)"; cases ?eqA; cases ?eqb; cases ?ubA; cases ?ubb) simp_all
qed

lemma needs_cbc_route:
  assumes "(P_A_eq P = None) = (P_b_eq P = None)" and "(P_A_ub P = None) = (P_b_ub P = None)"
  shows "needs_cbc P = Inr (continuous_route P)"
  unfolding needs_cbc_def continuous_route_def not_integer_valued_iff
    all_data_integer_consistent [OF assms]
  by (simp add: Let_def)

text \<open>
  Claim C5. For every normalized problem \<open>P\<close>, \<open>solve_milp\<close> routes \<open>P\<close> to the
  continuous-capable backend if and only if some integrality marker is continuous (not
  binary or integer) or some objective coefficient, finite bound, matrix coefficient or
  right-hand-side entry is not integer-valued within \<open>1e-9\<close>; otherwise it routes \<open>P\<close>
  to the integer-only backend.
\<close>

theorem routing_decision:
  assumes "normalize_problem problem = Inr P"
  shows "needs_cbc P = Inr (continuous_route P) \<and>
         solve_milp cpsat cbc problem time_limit =
           (if continuous_route P then Inr (solve_mip_cbc_mixed cbc P time_limit)
            else cp_sat_route cpsat P time_limit)"
proof -
  from normalize_pairs [OF assms] have "needs_cbc P = Inr (continuous_route P)"
    by (intro needs_cbc_route) simp_all
  with assms show ?thesis by (simp add: solve_milp_def)
qed


theorem routing_decision_witness:
  "normalize_problem assignment_problem = Inr assignment_normalized \<and>
   \<not> continuous_route assignment_normalized \<and>
   needs_cbc assignment_normalized = Inr (continuous_route assignment_normalized) \<and>
   solve_milp (cpsat_constant assignment_response) None assignment_problem None =
     cp_sat_route (cpsat_constant assignment_response) assignment_normalized None"
proof -
  have n: "normalize_problem assignment_problem = Inr assignment_normalized"
    by code_simp
  have r: "\<not> continuous_route assignment_normalized"
    by code_simp
  from routing_decision [OF n, of "cpsat_constant assignment_response" None None] n r
  show ?thesis by simp
qed

text \<open>Changing one coefficient of the assignment problem to 0.5 changes the route.\<close>

lemma half_coefficient_routes_to_cbc:
  "continuous_route (assignment_normalized\<lparr>P_c := [1, 2, 2, 0.5]\<rparr>)"
  by code_simp

subsection \<open>Normalization rejects malformed problems\<close>

lemma bind_err_isl: "isl m \<Longrightarrow> isl (bind_err m f)"
  by (cases m) (simp_all add: bind_err_def)

lemma bind_err_isl_step: "(\<And>x. m = Inr x \<Longrightarrow> isl (f x)) \<Longrightarrow> isl (bind_err m f)"
  by (cases m) (simp_all add: bind_err_def)

lemma bad_sense_raises: "bad_sense (raw_sense problem) \<Longrightarrow> isl (norm_sense problem)"
  by (cases "raw_sense problem") (simp_all add: bad_sense_def norm_sense_def)

lemma integrality_length_raises:
  "length_differs (raw_integrality problem) n \<Longrightarrow> isl (norm_integrality problem n)"
  by (cases "raw_integrality problem")
     (simp_all add: length_differs_def norm_integrality_def bind_err_def)

lemma bounds_length_raises:
  "length_differs (raw_bounds problem) n \<Longrightarrow> isl (norm_bounds problem n)"
  by (cases "raw_bounds problem") (simp_all add: length_differs_def norm_bounds_def)

lemma names_length_raises:
  "nonempty_length_differs (raw_var_names problem) n \<Longrightarrow> isl (norm_names problem n)"
  by (cases "raw_var_names problem") (simp_all add: nonempty_length_differs_def norm_names_def)

lemma half_present_raises:
  "half_present A b \<Longrightarrow> isl (check_pair msg (py_get_key A) (py_get_key b))"
  by (simp add: half_present_def check_pair_def)

lemma normalize_raises:
  assumes "raw_c problem = Val c" and "malformed problem (length c)"
  shows "isl (normalize_problem problem)"
proof -
  have c: "norm_c problem = Inr c" using assms(1) by (simp add: norm_c_def)
  from assms(2) consider
      "bad_sense (raw_sense problem)"
    | "length_differs (raw_integrality problem) (length c)"
    | "length_differs (raw_bounds problem) (length c)"
    | "nonempty_length_differs (raw_var_names problem) (length c)"
    | "half_present (raw_A_eq problem) (raw_b_eq problem)"
    | "half_present (raw_A_ub problem) (raw_b_ub problem)"
    unfolding malformed_def by blast
  then show ?thesis
  proof cases
    case 1
    then show ?thesis unfolding normalize_problem_def
      by (intro bind_err_isl bad_sense_raises)
  next
    case 2
    then have "isl (norm_integrality problem (length c))" by (rule integrality_length_raises)
    then show ?thesis unfolding normalize_problem_def c
      by (intro bind_err_isl_step) (simp add: bind_err_isl)
  next
    case 3
    then have "isl (norm_bounds problem (length c))" by (rule bounds_length_raises)
    then show ?thesis unfolding normalize_problem_def c
      by (intro bind_err_isl_step) (simp add: bind_err_isl)
  next
    case 4
    then have "isl (norm_names problem (length c))" by (rule names_length_raises)
    then show ?thesis unfolding normalize_problem_def c
      by (intro bind_err_isl_step) (simp add: bind_err_isl)
  next
    case 5
    then have "isl (check_pair ''A_eq and b_eq must be both present or both absent.''
                 (py_get_key (raw_A_eq problem)) (py_get_key (raw_b_eq problem)))"
      by (rule half_present_raises)
    then show ?thesis unfolding normalize_problem_def c
      by (intro bind_err_isl_step) (simp add: bind_err_isl)
  next
    case 6
    then have "isl (check_pair ''A_ub and b_ub must be both present or both absent.''
                 (py_get_key (raw_A_ub problem)) (py_get_key (raw_b_ub problem)))"
      by (rule half_present_raises)
    then show ?thesis unfolding normalize_problem_def c
      by (intro bind_err_isl_step) (simp add: bind_err_isl)
  qed
qed

text \<open>
  Claim C7, as amended. Normalization raises, and \<open>solve_milp\<close> ends with that
  exception whatever the backends are, whenever \<open>bounds\<close> or \<open>integrality\<close> is given
  with a length other than that of \<open>c\<close>, or \<open>var_names\<close> is given non-empty with such
  a length, or exactly one member of a (matrix, rhs) pair is given, or \<open>sense\<close> is a
  non-empty string that in lower case is neither min nor max.
\<close>

theorem normalization_rejects_malformed:
  assumes "raw_c problem = Val c" and "malformed problem (length c)"
  shows "\<exists>e. normalize_problem problem = Inl e \<and>
             solve_milp cpsat cbc problem time_limit = Inl e"
proof -
  from normalize_raises [OF assms] obtain e where "normalize_problem problem = Inl e"
    by (cases "normalize_problem problem") simp_all
  then show ?thesis by (simp add: solve_milp_def)
qed

theorem normalization_rejects_malformed_witness:
  "raw_c short_bounds_problem = Val [1, 2] \<and> malformed short_bounds_problem (length [1, 2 :: real]) \<and>
   (\<exists>e. normalize_problem short_bounds_problem = Inl e \<and>
        solve_milp (cpsat_constant assignment_response) None short_bounds_problem None = Inl e)"
proof -
  have c: "raw_c short_bounds_problem = Val [1, 2]"
    by (simp add: short_bounds_problem_def)
  have m: "malformed short_bounds_problem (length [1, 2 :: real])"
    by (simp add: malformed_def short_bounds_problem_def length_differs_def)
  from normalization_rejects_malformed [OF c m, of "cpsat_constant assignment_response" None None] c m
  show ?thesis by blast
qed

text \<open>
  Claim C7 as stated fails: an empty \<open>var_names\<close> list (and an empty \<open>sense\<close>) counts
  as not given, so a problem with one coefficient and no names is normalized with the
  default names although the lengths differ.
\<close>

theorem empty_var_names_accepted:
  "raw_c empty_names_problem = Val [1] \<and>
   length_differs (raw_var_names empty_names_problem) (length [1 :: real]) \<and>
   raw_sense empty_names_problem = Val [] \<and>
   \<not> isl (normalize_problem empty_names_problem)"
  by code_simp

subsection \<open>Result packaging\<close>

lemma cp_sat_objective_adds_offset:
  "fst (snd (pack_result solver CP_OPTIMAL xs P)) =
     Some (cp_objective_value solver + P_obj_offset P)"
  by (simp add: pack_result_def Let_def)

lemma cbc_objective_without_offset:
  "fst (snd (solve_mip_cbc_mixed (Some solve) P time_limit)) =
     (if mip_result_status (solve (cbc_model P time_limit)) = CBC_OPTIMAL
      then Some (mip_objective_value (solve (cbc_model P time_limit))) else None)"
  unfolding solve_mip_cbc_mixed_def Let_def
  by (simp add: CBC_OPTIMAL_def CBC_INFEASIBLE_def CBC_UNBOUNDED_def)

text \<open>
  Claim C2. When the status is Optimal the returned objective is the backend's
  objective value plus \<open>obj_offset\<close>, on both routes. The CP-SAT route adds the offset
  (\<open>cp_sat_objective_adds_offset\<close>); the CBC route returns the backend's value as it is.
  On \<open>offset_problem\<close> (offset 5, routed to CBC) with a backend reporting the optimum 0
  the returned objective is 0, not 5.
\<close>

theorem cbc_route_omits_obj_offset:
  "\<exists>P x ex. normalize_problem offset_problem = Inr P \<and> P_obj_offset P = 5 \<and>
      needs_cbc P = Inr True \<and>
      solve_milp cpsat (Some cbc_reports_zero) offset_problem None =
        Inr (''Optimal'', Some 0, x, ex)"
proof -
  let ?P = "\<lparr>P_sense = ''min'', P_c = [1], P_n = 1, P_integrality = [None],
             P_bounds = [(Some 0, Some 1)], P_var_names = [''x0''],
             P_A_eq = None, P_b_eq = None, P_A_ub = None, P_b_ub = None,
             P_obj_offset = 5\<rparr>"
  have n: "normalize_problem offset_problem = Inr ?P"
    by code_simp
  have r: "needs_cbc ?P = Inr True"
    by (simp add: needs_cbc_def)
  have "\<exists>x ex. solve_mip_cbc_mixed (Some cbc_reports_zero) ?P None = (''Optimal'', Some 0, x, ex)"
    by (simp add: solve_mip_cbc_mixed_def cbc_reports_zero_def Let_def)
  with n r show ?thesis by (simp add: solve_milp_def)
qed

text \<open>
  Claim C10. On the CP-SAT route the packaged status is never Unbounded: it is Optimal
  for the optimal code, Infeasible for the infeasible code and NotSolved for every
  other code.
\<close>

theorem cp_sat_status_never_unbounded:
  "fst (pack_result solver code xs P) =
     (if code = CP_OPTIMAL then ''Optimal''
      else if code = CP_INFEASIBLE then ''Infeasible'' else ''NotSolved'') \<and>
   fst (pack_result solver code xs P) \<noteq> ''Unbounded''"
  by (simp add: pack_result_def Let_def)

lemma cp_sat_route_never_unbounded:
  assumes "cp_sat_route cpsat P time_limit = Inr r"
  shows "fst r \<noteq> ''Unbounded''"
proof -
  from assms obtain model where
    "r = pack_result (solve_model cpsat model time_limit)
           (cp_status_code (solve_model cpsat model time_limit)) (cp_vars model) P"
    by (auto simp add: cp_sat_route_def Let_def split: sum.splits)
  then show ?thesis by (simp add: pack_result_def Let_def)
qed

section \<open>Properties of the LPnetlib adapter\<close>

subsection \<open>Row-bound partitioning\<close>

lemma count_list_upt: "count_list [0..<m] i = (if i < m then 1 else 0)"
  by (induction m) auto

lemma count_list_filter: "count_list (filter P xs) i = (if P i then count_list xs i else 0)"
  by (induction xs) auto

lemma length_filter_sum:
  "length (filter P xs) = sum_list (map (\<lambda>x. if P x then 1 else 0) xs)"
  by (induction xs) auto

lemma length_is_eq_mask:
  "length rl = length ru \<Longrightarrow> length (is_eq_mask eq_tol rl ru) = length ru"
  by (simp add: is_eq_mask_def)

lemma is_eq_mask_nth:
  assumes "length rl = m" and "length ru = m" and "i < m"
  shows "is_eq_mask eq_tol rl ru ! i = (row_class eq_tol (rl ! i) (ru ! i) = Equality)"
  using assms by (simp add: is_eq_mask_def row_class_def)

lemma eq_idx_filter:
  assumes "length rl = m" and "length ru = m"
  shows "eq_idx eq_tol rl ru = filter (\<lambda>i. row_class eq_tol (rl ! i) (ru ! i) = Equality) [0..<m]"
  unfolding eq_idx_def np_where_def
  using assms by (auto simp add: length_is_eq_mask is_eq_mask_nth intro!: filter_cong)

lemma le_idx_filter:
  assumes "length rl = m" and "length ru = m"
  shows "le_idx eq_tol rl ru =
     filter (\<lambda>i. row_class eq_tol (rl ! i) (ru ! i) = TwoSided \<or>
                 row_class eq_tol (rl ! i) (ru ! i) = UpperOnly) [0..<m]"
proof -
  have "(map (\<lambda>(u, e). isfinite u \<and> \<not> e) (zip ru (is_eq_mask eq_tol rl ru))) ! i =
        (row_class eq_tol (rl ! i) (ru ! i) = TwoSided \<or>
         row_class eq_tol (rl ! i) (ru ! i) = UpperOnly)" if "i < m" for i
    using that assms by (simp add: length_is_eq_mask is_eq_mask_nth) (simp add: row_class_def)
  then show ?thesis
    unfolding le_idx_def np_where_def
    using assms by (auto simp add: length_is_eq_mask intro!: filter_cong)
qed

lemma ge_idx_filter:
  assumes "length rl = m" and "length ru = m"
  shows "ge_idx eq_tol rl ru =
     filter (\<lambda>i. row_class eq_tol (rl ! i) (ru ! i) = TwoSided \<or>
                 row_class eq_tol (rl ! i) (ru ! i) = LowerOnly) [0..<m]"
proof -
  have "(map (\<lambda>(l, e). isfinite l \<and> \<not> e) (zip rl (is_eq_mask eq_tol rl ru))) ! i =
        (row_class eq_tol (rl ! i) (ru ! i) = TwoSided \<or>
         row_class eq_tol (rl ! i) (ru ! i) = LowerOnly)" if "i < m" for i
    using that assms by (simp add: length_is_eq_mask is_eq_mask_nth) (simp add: row_class_def)
  then show ?thesis
    unfolding ge_idx_def np_where_def
    using assms by (auto simp add: length_is_eq_mask intro!: filter_cong)
qed

lemma row_kinds_upt:
  assumes "length rl = m" and "length ru = m"
  shows "row_kinds eq_tol rl ru = map (\<lambda>i. row_class eq_tol (rl ! i) (ru ! i)) [0..<m]"
  using assms by (auto simp add: row_kinds_def intro!: nth_equalityI)

lemma index_counts:
  assumes "length rl = m" and "length ru = m" and "i < m"
  shows "count_list (eq_idx eq_tol rl ru @ le_idx eq_tol rl ru @ ge_idx eq_tol rl ru) i =
         times_emitted (row_kinds eq_tol rl ru ! i)"
proof -
  have k: "row_kinds eq_tol rl ru ! i = row_class eq_tol (rl ! i) (ru ! i)"
    using assms by (simp add: row_kinds_upt [OF assms(1,2)])
  show ?thesis
    unfolding k eq_idx_filter [OF assms(1,2)] le_idx_filter [OF assms(1,2)]
      ge_idx_filter [OF assms(1,2)]
    using assms(3)
    by (cases "row_class eq_tol (rl ! i) (ru ! i)")
       (simp_all add: count_list_filter count_list_upt)
qed

lemma index_total:
  assumes "length rl = m" and "length ru = m"
  shows "length (eq_idx eq_tol rl ru) + length (le_idx eq_tol rl ru) + length (ge_idx eq_tol rl ru) =
         sum_list (map times_emitted (row_kinds eq_tol rl ru))"
proof -
  have "(if k = Equality then 1 else 0) + (if k = TwoSided \<or> k = UpperOnly then 1 else 0) +
        (if k = TwoSided \<or> k = LowerOnly then 1 else 0) = times_emitted k" for k
    by (cases k) simp_all
  then show ?thesis
    unfolding eq_idx_filter [OF assms] le_idx_filter [OF assms] ge_idx_filter [OF assms]
      row_kinds_upt [OF assms] length_filter_sum
    by (simp add: sum_list_addf [symmetric] comp_def)
qed

lemma sum_times_emitted_once:
  "list_all (\<lambda>k. k \<noteq> TwoSided \<and> k \<noteq> Free) ks \<Longrightarrow> sum_list (map times_emitted ks) = length ks"
proof (induction ks)
  case Nil
  then show ?case by simp
next
  case (Cons k ks)
  then show ?case by (cases k) simp_all
qed


lemma load_with_row_bounds:
  assumes "length c = mat_cols A" and "sizes_ok (mat_cols A) lo" and "sizes_ok (mat_cols A) hi"
    and "length rl = length (mat_rows A)" and "length ru = length (mat_rows A)"
  shows "\<exists>p. load_lpnetlib_mat to_float path eq_tol (Some A) (Some c) b (Some rl) (Some ru) lo hi z0 = Inr p \<and>
     rows_of (lp_A_eq p) = map (\<lambda>i. mat_rows A ! i) (eq_idx eq_tol rl ru) \<and>
     rows_of (lp_A_ub p) =
       map (\<lambda>i. mat_rows A ! i) (le_idx eq_tol rl ru) @
       map (\<lambda>i. map uminus (mat_rows A ! i)) (ge_idx eq_tol rl ru)"
proof -
  let ?eqs = "eq_idx eq_tol rl ru" and ?les = "le_idx eq_tol rl ru" and ?ges = "ge_idx eq_tol rl ru"
  let ?rc = "\<lparr>rc_A_eq = (if ?eqs \<noteq> [] then Some (take_rows A ?eqs) else None),
              rc_b_eq = (if ?eqs \<noteq> [] then Some (take_entries ru ?eqs) else None),
              rc_A_ub_blocks =
                (if ?les \<noteq> [] then [take_rows A ?les] else []) @
                (if ?ges \<noteq> [] then [neg_matrix (take_rows A ?ges)] else []),
              rc_b_ub_blocks =
                (if ?les \<noteq> [] then [take_entries ru ?les] else []) @
                (if ?ges \<noteq> [] then [map np_neg (take_entries rl ?ges)] else [])\<rparr>"
  have rc: "build_row_constraints eq_tol A b (Some rl) (Some ru) = Inr ?rc"
    using assms(4,5) by (simp add: build_row_constraints_def partition_rows_def Let_def)
  have lo: "length (case lo of None \<Rightarrow> replicate (mat_cols A) (Fin 0) | Some v \<Rightarrow> v) = mat_cols A"
    using assms(2) by (simp add: sizes_ok_def split: option.splits)
  have hi: "length (case hi of None \<Rightarrow> replicate (mat_cols A) PosInf | Some v \<Rightarrow> v) = mat_cols A"
    using assms(3) by (simp add: sizes_ok_def split: option.splits)
  define p where "p =
     \<lparr>lp_sense = ''min'', lp_c = c,
      lp_bounds = map (\<lambda>(L, U). (bound_of L, bound_of U))
        (zip (case lo of None \<Rightarrow> replicate (mat_cols A) (Fin 0) | Some v \<Rightarrow> v)
             (case hi of None \<Rightarrow> replicate (mat_cols A) PosInf | Some v \<Rightarrow> v)),
      lp_var_names = default_names (mat_cols A),
      lp_metadata = (''LPnetlib'', path),
      lp_A_eq = rc_A_eq ?rc, lp_b_eq = rc_b_eq ?rc,
      lp_A_ub = (if rc_A_ub_blocks ?rc \<noteq> []
                 then Some (vstack (mat_cols A) (rc_A_ub_blocks ?rc)) else None),
      lp_b_ub = (if rc_A_ub_blocks ?rc \<noteq> []
                 then Some (concat (rc_b_ub_blocks ?rc)) else None),
      lp_obj_offset = (case z0 of None \<Rightarrow> None | Some z \<Rightarrow> to_float z)\<rparr>"
  have p: "load_lpnetlib_mat to_float path eq_tol (Some A) (Some c) b (Some rl) (Some ru) lo hi z0 = Inr p"
    using assms(1) lo hi by (simp add: load_lpnetlib_mat_def rc Let_def p_def)
  have A_eq: "lp_A_eq p = rc_A_eq ?rc"
    and A_ub: "lp_A_ub p = (if rc_A_ub_blocks ?rc \<noteq> []
                             then Some (vstack (mat_cols A) (rc_A_ub_blocks ?rc)) else None)"
    by (simp_all add: p_def)
  have "rows_of (lp_A_eq p) = map (\<lambda>i. mat_rows A ! i) ?eqs"
    unfolding A_eq by (simp add: rows_of_def take_rows_def)
  moreover have "rows_of (lp_A_ub p) =
       map (\<lambda>i. mat_rows A ! i) ?les @ map (\<lambda>i. map uminus (mat_rows A ! i)) ?ges"
    unfolding A_ub by (simp add: rows_of_def take_rows_def vstack_def neg_matrix_def comp_def)
  ultimately show ?thesis using p by blast
qed

lemma emitted_rows_of: "emitted_rows p = length (rows_of (lp_A_eq p)) + length (rows_of (lp_A_ub p))"
  by (simp add: emitted_rows_def row_count_def rows_of_def split: option.splits)

text \<open>
  Claim C3, as amended. When \<open>rl\<close> and \<open>ru\<close> are given with one entry per row, the
  load succeeds and every row is emitted by its kind: an equality row once, in \<open>A_eq\<close>;
  a row with only a finite upper bound once, in \<open>A_ub\<close>; a row with only a finite lower
  bound once, negated, in \<open>A_ub\<close>; a two-sided row that is not an equality twice in
  \<open>A_ub\<close> (as it is and negated); a free row not at all. The number of rows emitted is
  the sum of these multiplicities, and it is the number of rows of \<open>A\<close> when no row is
  two-sided or free.
\<close>

theorem rows_emitted_by_kind:
  assumes "length c = mat_cols A" and "sizes_ok (mat_cols A) lo" and "sizes_ok (mat_cols A) hi"
    and "length rl = length (mat_rows A)" and "length ru = length (mat_rows A)"
  shows "\<exists>p. load_lpnetlib_mat to_float path eq_tol (Some A) (Some c) b (Some rl) (Some ru) lo hi z0 = Inr p \<and>
     rows_of (lp_A_eq p) = map (\<lambda>i. mat_rows A ! i) (eq_idx eq_tol rl ru) \<and>
     rows_of (lp_A_ub p) =
       map (\<lambda>i. mat_rows A ! i) (le_idx eq_tol rl ru) @
       map (\<lambda>i. map uminus (mat_rows A ! i)) (ge_idx eq_tol rl ru) \<and>
     (\<forall>i < length (mat_rows A).
        count_list (eq_idx eq_tol rl ru @ le_idx eq_tol rl ru @ ge_idx eq_tol rl ru) i =
        times_emitted (row_kinds eq_tol rl ru ! i)) \<and>
     emitted_rows p = sum_list (map times_emitted (row_kinds eq_tol rl ru)) \<and>
     (list_all (\<lambda>k. k \<noteq> TwoSided \<and> k \<noteq> Free) (row_kinds eq_tol rl ru) \<longrightarrow>
        emitted_rows p = length (mat_rows A))"
proof -
  from load_with_row_bounds [OF assms] obtain p where
    p: "load_lpnetlib_mat to_float path eq_tol (Some A) (Some c) b (Some rl) (Some ru) lo hi z0 = Inr p"
    and A_eq: "rows_of (lp_A_eq p) = map (\<lambda>i. mat_rows A ! i) (eq_idx eq_tol rl ru)"
    and A_ub: "rows_of (lp_A_ub p) =
       map (\<lambda>i. mat_rows A ! i) (le_idx eq_tol rl ru) @
       map (\<lambda>i. map uminus (mat_rows A ! i)) (ge_idx eq_tol rl ru)"
    by blast
  have counts: "\<forall>i < length (mat_rows A).
        count_list (eq_idx eq_tol rl ru @ le_idx eq_tol rl ru @ ge_idx eq_tol rl ru) i =
        times_emitted (row_kinds eq_tol rl ru ! i)"
    using index_counts [OF assms(4,5)] by blast
  have total: "emitted_rows p = sum_list (map times_emitted (row_kinds eq_tol rl ru))"
    unfolding emitted_rows_of A_eq A_ub using index_total [OF assms(4,5), of eq_tol] by simp
  have len: "length (row_kinds eq_tol rl ru) = length (mat_rows A)"
    using assms(4,5) by (simp add: row_kinds_def)
  have once: "list_all (\<lambda>k. k \<noteq> TwoSided \<and> k \<noteq> Free) (row_kinds eq_tol rl ru) \<longrightarrow>
        emitted_rows p = length (mat_rows A)"
    unfolding total using sum_times_emitted_once [of "row_kinds eq_tol rl ru"] len by simp
  from p A_eq A_ub counts total once show ?thesis by blast
qed

theorem rows_emitted_by_kind_witness:
  "length [Fin 1, Fin 2] = mat_cols three_rows \<and>
   sizes_ok (mat_cols three_rows) None \<and>
   length [Fin 1, NegInf, Fin 0] = length (mat_rows three_rows) \<and>
   length [Fin 1, Fin 4, PosInf] = length (mat_rows three_rows) \<and>
   row_kinds (1 / 10 ^ 12) [Fin 1, NegInf, Fin 0] [Fin 1, Fin 4, PosInf] =
     [Equality, UpperOnly, LowerOnly] \<and>
   (\<exists>p. load_lpnetlib_mat first_entry ''afiro.mat'' (1 / 10 ^ 12) (Some three_rows)
           (Some [Fin 1, Fin 2]) None (Some [Fin 1, NegInf, Fin 0]) (Some [Fin 1, Fin 4, PosInf])
           None None None = Inr p \<and>
        rows_of (lp_A_eq p) = [[1, 0]] \<and> rows_of (lp_A_ub p) = [[0, 1], [- 1, - 1]] \<and>
        emitted_rows p = 3)"
proof -
  have c: "length [Fin 1, Fin 2] = mat_cols three_rows" by (simp add: three_rows_def)
  have s: "sizes_ok (mat_cols three_rows) None" by (simp add: sizes_ok_def)
  have l: "length [Fin 1, NegInf, Fin 0] = length (mat_rows three_rows)"
    by (simp add: three_rows_def)
  have u: "length [Fin 1, Fin 4, PosInf] = length (mat_rows three_rows)"
    by (simp add: three_rows_def)
  have k: "row_kinds (1 / 10 ^ 12) [Fin 1, NegInf, Fin 0] [Fin 1, Fin 4, PosInf] =
     [Equality, UpperOnly, LowerOnly]"
    by (simp add: row_kinds_def row_class_def)
  have e: "eq_idx (1 / 10 ^ 12) [Fin 1, NegInf, Fin 0] [Fin 1, Fin 4, PosInf] = [0]"
    by code_simp
  have le: "le_idx (1 / 10 ^ 12) [Fin 1, NegInf, Fin 0] [Fin 1, Fin 4, PosInf] = [1]"
    by code_simp
  have ge: "ge_idx (1 / 10 ^ 12) [Fin 1, NegInf, Fin 0] [Fin 1, Fin 4, PosInf] = [2]"
    by code_simp
  from rows_emitted_by_kind [OF c s s l u, of first_entry "''afiro.mat''" "1 / 10 ^ 12" None None]
  show ?thesis
    unfolding k e le ge using c s l u by (auto simp add: three_rows_def)
qed

text \<open>
  Claim C3 as stated fails: a row with the bounds \<open>0 \<le> a x \<le> 1\<close> is both a \<open>\<le>\<close>-row
  and a \<open>\<ge>\<close>-row, so the one-row matrix yields two rows; a row with no finite bound
  is in none of the three sets, so it yields no row.
\<close>

theorem two_sided_row_emitted_twice:
  "length (mat_rows one_row) = 1 \<and>
   row_kinds (1 / 10 ^ 12) [Fin 0] [Fin 1] = [TwoSided] \<and>
   map_sum id emitted_rows
     (load_lpnetlib_mat first_entry ''afiro.mat'' (1 / 10 ^ 12) (Some one_row) (Some [Fin 1]) None
        (Some [Fin 0]) (Some [Fin 1]) None None None) = Inr 2 \<and>
   row_kinds (1 / 10 ^ 12) [NegInf] [PosInf] = [Free] \<and>
   map_sum id emitted_rows
     (load_lpnetlib_mat first_entry ''afiro.mat'' (1 / 10 ^ 12) (Some one_row) (Some [Fin 1]) None
        (Some [NegInf]) (Some [PosInf]) None None None) = Inr 0"
  by code_simp

subsection \<open>The objective constant\<close>

text \<open>
  Claim C8. When the objective constant \<open>z0\<close> is present and cannot be converted to a
  float, the adapter does what it does without \<open>z0\<close>: it raises nothing on its account
  and returns the same problem, which has no \<open>obj_offset\<close>. When \<open>z0\<close> converts to
  \<open>v\<close>, the problem is the same with \<open>obj_offset\<close> set to \<open>v\<close>.
\<close>

theorem malformed_offset_ignored:
  "(to_float z = None \<longrightarrow>
      load_lpnetlib_mat to_float path eq_tol A c b rl ru lo hi (Some z) =
      load_lpnetlib_mat to_float path eq_tol A c b rl ru lo hi None) \<and>
   (\<forall>v. to_float z = Some v \<longrightarrow>
      load_lpnetlib_mat to_float path eq_tol A c b rl ru lo hi (Some z) =
      map_sum id (\<lambda>p. p\<lparr>lp_obj_offset := Some v\<rparr>)
        (load_lpnetlib_mat to_float path eq_tol A c b rl ru lo hi None)) \<and>
   (\<forall>p. load_lpnetlib_mat to_float path eq_tol A c b rl ru lo hi None = Inr p \<longrightarrow>
      lp_obj_offset p = None)"
  unfolding load_lpnetlib_mat_def Let_def
  by (auto split: option.splits sum.splits)

theorem malformed_offset_ignored_witness:
  "first_entry [] = None \<and>
   load_lpnetlib_mat first_entry ''afiro.mat'' (1 / 10 ^ 12) (Some one_row) (Some [Fin 1]) None
     None None None None (Some []) =
   load_lpnetlib_mat first_entry ''afiro.mat'' (1 / 10 ^ 12) (Some one_row) (Some [Fin 1]) None
     None None None None None \<and>
   first_entry [3] = Some 3 \<and>
   map_sum id lp_obj_offset
     (load_lpnetlib_mat first_entry ''afiro.mat'' (1 / 10 ^ 12) (Some one_row) (Some [Fin 1]) None
        None None None None (Some [3])) = Inr (Some 3) \<and>
   map_sum id lp_obj_offset
     (load_lpnetlib_mat first_entry ''afiro.mat'' (1 / 10 ^ 12) (Some one_row) (Some [Fin 1]) None
        None None None None (Some [])) = Inr None"
proof -
  have n: "first_entry [] = None" by (simp add: first_entry_def)
  have s: "first_entry [3] = Some 3" by (simp add: first_entry_def)
  have ok: "isl (load_lpnetlib_mat first_entry ''afiro.mat'' (1 / 10 ^ 12) (Some one_row)
     (Some [Fin 1]) None None None None None None) = False"
    by (simp add: load_lpnetlib_mat_def one_row_def build_row_constraints_def Let_def)
  from malformed_offset_ignored [of first_entry "[]" "''afiro.mat''" "1 / 10 ^ 12" "Some one_row"
      "Some [Fin 1]" None None None None None]
    malformed_offset_ignored [of first_entry "[3]" "''afiro.mat''" "1 / 10 ^ 12" "Some one_row"
      "Some [Fin 1]" None None None None None]
    n s ok
  show ?thesis
    by (cases "load_lpnetlib_mat first_entry ''afiro.mat'' (1 / 10 ^ 12) (Some one_row)
     (Some [Fin 1]) None None None None None None") auto
qed

section \<open>Properties of the solution-archive parser\<close>

lemma find_status_first:
  "find_status parts k =
     (if list_ex is_status parts then Some (k + first_status_index parts) else None)"
  by (induction parts arbitrary: k) (simp_all add: is_status_def first_status_index_def)

lemma first_status_index_less:
  "list_ex is_status parts \<Longrightarrow> first_status_index parts < length parts"
  by (induction parts) (auto simp add: first_status_index_def)

lemma last_number_nonempty:
  "ys \<noteq> [] \<Longrightarrow> (case ys of [] \<Rightarrow> None | tok # toks \<Rightarrow> f (last (tok # toks))) = f (last ys)"
  by (cases ys) simp_all

lemma last_number_snoc:
  "last_number py_float (parts @ [tok]) =
     (case py_float tok of Some v \<Rightarrow> Some v | None \<Rightarrow> last_number py_float parts)"
proof (cases "py_float tok")
  case None
  then show ?thesis by (simp add: last_number_def)
next
  case (Some v)
  let ?ys = "filter (\<lambda>t. py_float t \<noteq> None) parts @ [tok]"
  have "filter (\<lambda>t. py_float t \<noteq> None) (parts @ [tok]) = ?ys" using Some by simp
  then have "last_number py_float (parts @ [tok]) = py_float (last ?ys)"
    unfolding last_number_def using last_number_nonempty [of ?ys py_float] by simp
  with Some show ?thesis by simp
qed

lemma first_float_rev:
  "first_float py_float (rev parts) = last_number py_float parts"
proof (induction parts rule: rev_induct)
  case Nil
  then show ?case by (simp add: last_number_def)
next
  case (snoc tok parts)
  then show ?case by (simp add: last_number_snoc split: option.splits)
qed

lemma split_from_nonempty: "[] \<notin> set (split_from cur s)"
  by (induction s arbitrary: cur) auto

lemma split_nonempty: "tok \<in> set (split s) \<Longrightarrow> tok \<noteq> []"
  using split_from_nonempty [of "[]" s] by (auto simp add: split_def)

lemma fallback_line_spec:
  "fallback_line py_float out line =
     (let parts = split line; i = first_status_index parts
      in if \<not> list_ex is_status parts then out
         else if i = 0 \<and> length parts = 1 then out
         else out((if 0 < i then parts ! (i - 1) else parts ! (i + 1)) \<mapsto>
                    (lower (parts ! i), last_number py_float parts)))"
proof (cases "list_ex is_status (split line)")
  case False
  then show ?thesis by (simp add: fallback_line_def find_status_first)
next
  case True
  let ?parts = "split line"
  let ?i = "first_status_index ?parts"
  from True have i: "?i < length ?parts" by (rule first_status_index_less)
  have find: "find_status ?parts 0 = Some ?i"
    using True by (simp add: find_status_first)
  show ?thesis
  proof (cases "0 < ?i")
    case True
    with i have "?parts ! (?i - 1) \<in> set ?parts" by simp
    then have "?parts ! (?i - 1) \<noteq> []" by (rule split_nonempty)
    with True \<open>list_ex is_status ?parts\<close> show ?thesis
      by (simp add: fallback_line_def find Let_def first_float_rev)
  next
    case False
    then have zero: "?i = 0" by simp
    show ?thesis
    proof (cases "1 < length ?parts")
      case True
      then have "?parts ! 1 \<in> set ?parts" by simp
      then have "?parts ! 1 \<noteq> []" by (rule split_nonempty)
      with True zero \<open>list_ex is_status ?parts\<close> show ?thesis
        by (simp add: fallback_line_def find Let_def first_float_rev)
    next
      case False
      with i have "length ?parts = 1" by linarith
      with zero \<open>list_ex is_status ?parts\<close> show ?thesis
        by (simp add: fallback_line_def find Let_def)
    qed
  qed
qed

text \<open>
  Claim C9. A line that is not blank, not a comment and not of the tagged grammar never
  makes the parser raise. It is skipped when no token is of the status vocabulary, or
  when the first status token is the only token; otherwise an entry is recorded under
  the token just before the first status token if there is one, else under the token
  just after it, with that status token in lower case as the status and the value of
  the last token that parses as a number (none if there is none) as the objective.
\<close>

theorem fallback_grammar:
  assumes "fallback_candidate raw"
  shows "parse_line py_float out raw =
     Inr (let parts = split (strip raw); i = first_status_index parts
          in if \<not> list_ex is_status parts then out
             else if i = 0 \<and> length parts = 1 then out
             else out((if 0 < i then parts ! (i - 1) else parts ! (i + 1)) \<mapsto>
                        (lower (parts ! i), last_number py_float parts)))"
proof -
  from assms obtain c0 rest where line: "strip raw = c0 # rest" and "c0 \<noteq> CHR ''#''"
    and "match_v31 (c0 # rest) = None"
    by (auto simp add: fallback_candidate_def split: list.splits if_splits)
  then have "parse_line py_float out raw = Inr (fallback_line py_float out (strip raw))"
    by (simp add: parse_line_def)
  then show ?thesis by (simp only: fallback_line_spec)
qed


theorem fallback_grammar_witness:
  "fallback_candidate ''air04 optimal 56137'' \<and>
   split (strip ''air04 optimal 56137'') = [''air04'', ''optimal'', ''56137''] \<and>
   parse_line unsigned_float Map.empty ''air04 optimal 56137'' =
     Inr [''air04'' \<mapsto> (''optimal'', Some 56137)] \<and>
   fallback_candidate ''optimal'' \<and>
   parse_line unsigned_float Map.empty ''optimal'' = Inr Map.empty"
proof -
  have c: "fallback_candidate ''air04 optimal 56137''" by code_simp
  have s: "split (strip ''air04 optimal 56137'') = [''air04'', ''optimal'', ''56137'']"
    by code_simp
  have e: "is_status ''optimal''" by code_simp
  have i: "first_status_index [''air04'', ''optimal'', ''56137''] = 1" by code_simp
  have n: "last_number unsigned_float [''air04'', ''optimal'', ''56137''] = Some 56137"
    by (simp add: last_number_def unsigned_float_def digits_value_def is_digit_def)
  have l: "lower ''optimal'' = ''optimal''" by code_simp
  have c2: "fallback_candidate ''optimal''" by code_simp
  have s2: "split (strip ''optimal'') = [''optimal'']" by code_simp
  have i2: "first_status_index [''optimal''] = 0" by code_simp
  have first: "parse_line unsigned_float Map.empty ''air04 optimal 56137'' =
     Inr [''air04'' \<mapsto> (''optimal'', Some 56137)]"
    using fallback_grammar [OF c, of unsigned_float Map.empty]
    unfolding s Let_def i using e n l by simp
  have second: "parse_line unsigned_float Map.empty ''optimal'' = Inr Map.empty"
    using fallback_grammar [OF c2, of unsigned_float Map.empty]
    unfolding s2 Let_def i2 using e by simp
  from c s first c2 second show ?thesis by blast
qed

end
